theory Spec2Isabelle
  imports Complex_Main "HOL-Library.FSet" "HOL-Library.Sublist"
    "HOL-Library.Char_ord" "HOL-Library.List_Lexorder"
begin

section \<open>Render notifications: the render-progress state tracker\<close>

text \<open>
  A shallow embedding of \<^verbatim>\<open>telegram_notifications.py\<close>: the module-level
  dictionaries \<^verbatim>\<open>CURRENT_RENDERS\<close> and \<^verbatim>\<open>SESSION_RENDERS\<close>, the
  callback \<^verbatim>\<open>on_render_event\<close> and the helpers it calls.

  Conventions of the model.
  \<^item> Python floats (clock readings, durations, parameter values, frame times) are
    real numbers; \<^verbatim>\<open>int(x)\<close> truncates towards zero.
  \<^item> The host node is a record of what the callback reads from it: its path, its
    name and type (either may raise), and its numeric parameters.
  \<^item> What the outside world answers during one callback is a record \<open>env\<close>: the clock,
    the answer of the chat API, the files on disk.
  \<^item> The requests the callback issues are appended to the list \<open>calls\<close> of the world,
    in order; chat messages are values of a datatype whose fields are the values
    the source interpolates into its f-strings.
  \<^item> A raised Python exception is a value of type \<open>exn\<close>.
  \<^item> Lines written to the log widget (\<^verbatim>\<open>ui.log_message\<close>) are not recorded.
\<close>

subsection \<open>Host node\<close>

datatype parm_eval = EvalRaises | EvalTo real

record node =
  path :: string
  node_name :: "string option"
  type_name :: "string option"
  parm :: "string \<Rightarrow> parm_eval option"

text \<open>
  \<open>node_name\<close> and \<open>type_name\<close> are \<open>None\<close> when \<^verbatim>\<open>node.name()\<close>, respectively
  \<^verbatim>\<open>node.type().name()\<close>, raises. \<open>parm n p\<close> is \<open>None\<close> when the node has no
  parameter \<open>p\<close> (\<^verbatim>\<open>node.parm(p)\<close> is \<^verbatim>\<open>None\<close>), \<open>Some EvalRaises\<close> when
  its evaluation raises, and \<open>Some (EvalTo v)\<close> when it evaluates to \<open>v\<close>.
\<close>

definition get_render_engine :: "node \<Rightarrow> string" where
  "get_render_engine n =
     (case type_name n of
        None \<Rightarrow> ''Unknown''
      | Some t \<Rightarrow>
          if t = ''ifd'' then ''Mantra''
          else if t = ''usdrender_rop'' then ''Karma''
          else t)"

definition get_node_name :: "node \<Rightarrow> string" where
  "get_node_name n = (case node_name n of Some s \<Rightarrow> s | None \<Rightarrow> path n)"

definition get_sequence_range :: "node \<Rightarrow> real \<times> real" where
  "get_sequence_range n =
     (case parm n ''trange'' of
        None \<Rightarrow> (1, 1)
      | Some EvalRaises \<Rightarrow> (1, 1)
      | Some (EvalTo t) \<Rightarrow>
          if t = 0 then (1, 1)
          else
            (case parm n ''f1'' of
               None \<Rightarrow> (1, 1)
             | Some EvalRaises \<Rightarrow> (1, 1)
             | Some (EvalTo start) \<Rightarrow>
                 (case parm n ''f2'' of
                    None \<Rightarrow> (1, 1)
                  | Some EvalRaises \<Rightarrow> (1, 1)
                  | Some (EvalTo stop) \<Rightarrow> (start, stop))))"

subsection \<open>Render state\<close>

text \<open>Python's \<^verbatim>\<open>int(x)\<close> on a float: truncation towards zero.\<close>

definition py_int :: "real \<Rightarrow> int" where
  "py_int x = (if 0 \<le> x then \<lfloor>x\<rfloor> else \<lceil>x\<rceil>)"

record render_state =
  start_time :: real
  message_id :: "int option"
  completed_frames :: "real fset"
  total_frames :: int
  start_frame :: int
  end_frame :: int
  last_update_time :: real
  update_interval :: real

text \<open>
  \<open>initialize_render_state n t\<close>: the state built for node \<open>n\<close> when the clock
  reads \<open>t\<close>.
\<close>

definition initialize_render_state :: "node \<Rightarrow> real \<Rightarrow> render_state" where
  "initialize_render_state n t =
     (let (start, stop) = get_sequence_range n;
          frame_count = py_int (stop - start + 1)
      in \<lparr> start_time = t,
           message_id = None,
           completed_frames = {||},
           total_frames = frame_count,
           start_frame = py_int start,
           end_frame = py_int stop,
           last_update_time = t,
           update_interval = 2 \<rparr>)"

text \<open>
  \<open>should_update_progress st t\<close>: the returned flag and the state after the call,
  when the clock reads \<open>t\<close>.
\<close>

definition should_update_progress :: "render_state \<Rightarrow> real \<Rightarrow> bool \<times> render_state" where
  "should_update_progress st t =
     (let time_since_update = t - last_update_time st
      in if time_since_update \<ge> update_interval st
         then (True, st\<lparr>last_update_time := t\<rparr>)
         else (False, st))"

subsection \<open>Formatting helpers\<close>

text \<open>
  Python's \<^verbatim>\<open>//\<close> and \<^verbatim>\<open>%\<close> on floats with a positive divisor, and
  \<^verbatim>\<open>round\<close> (ties go to the even integer).
\<close>

definition py_floordiv :: "real \<Rightarrow> real \<Rightarrow> real" where
  "py_floordiv a b = of_int \<lfloor>a / b\<rfloor>"

definition py_fmod :: "real \<Rightarrow> real \<Rightarrow> real" where
  "py_fmod a b = a - b * of_int \<lfloor>a / b\<rfloor>"

definition py_round :: "real \<Rightarrow> int" where
  "py_round x =
     (let f = \<lfloor>x\<rfloor>; d = x - of_int f
      in if d < 1 / 2 then f
         else if d > 1 / 2 then f + 1
         else if even f then f else f + 1)"

text \<open>
  The text \<^verbatim>\<open>format_time\<close> returns, by its three shapes:
  \<^verbatim>\<open>"{hours}h {minutes}m {secs}s"\<close>, \<^verbatim>\<open>"{minutes}m {secs}s"\<close> and
  \<^verbatim>\<open>"{secs}s"\<close>.
\<close>

datatype time_text = HMS int int int | MS int int | Secs int

definition format_time :: "real \<Rightarrow> time_text" where
  "format_time seconds =
     (let hours = py_int (py_floordiv seconds 3600);
          minutes = py_int (py_floordiv (py_fmod seconds 3600) 60);
          secs = py_int (py_fmod seconds 60)
      in if hours > 0 then HMS hours minutes secs
         else if minutes > 0 then MS minutes secs
         else Secs secs)"

text \<open>
  The progress bar: a string of filled cells followed by blank cells. A string
  repeated a negative number of times is empty in Python, as \<open>replicate (nat k)\<close> is.
\<close>

datatype bar_cell = Filled | Blank

definition get_progress_bar :: "real \<Rightarrow> bar_cell list" where
  "get_progress_bar progress =
     (let bar_length = 10;
          filled = py_round (of_int bar_length * progress)
      in replicate (nat filled) Filled @ replicate (nat (bar_length - filled)) Blank)"

subsection \<open>Per-session statistics\<close>

record render_stats =
  times_list :: "real list"
  total_renders :: int
  frames_rendered :: int
  total_time :: real

text \<open>
  \<open>update_render_stats\<close> takes \<^verbatim>\<open>SESSION_RENDERS\<close> and returns it updated.
  \<^verbatim>\<open>pop(0)\<close> on a list of more than 10 entries is \<open>tl\<close>.
\<close>

definition update_render_stats ::
  "(string \<rightharpoonup> render_stats) \<Rightarrow> string \<Rightarrow> real \<Rightarrow> int \<Rightarrow> (string \<rightharpoonup> render_stats)" where
  "update_render_stats sr node_path render_time frame_count =
     (let s0 = (case sr node_path of
                  None \<Rightarrow> \<lparr> times_list = [], total_renders = 0,
                             frames_rendered = 0, total_time = 0 \<rparr>
                | Some s \<Rightarrow> s);
          s1 = s0\<lparr> times_list := times_list s0 @ [render_time],
                   total_renders := total_renders s0 + 1,
                   frames_rendered := frames_rendered s0 + frame_count,
                   total_time := total_time s0 + render_time \<rparr>;
          s2 = (if length (times_list s1) > 10
                then s1\<lparr> times_list := tl (times_list s1) \<rparr>
                else s1)
      in sr(node_path \<mapsto> s2))"

record stats_summary =
  average :: time_text
  summary_total_renders :: int
  last_render :: time_text

definition get_render_stats ::
  "(string \<rightharpoonup> render_stats) \<Rightarrow> string \<Rightarrow> stats_summary option" where
  "get_render_stats sr node_path =
     (case sr node_path of
        None \<Rightarrow> None
      | Some stats \<Rightarrow>
          if times_list stats = [] then None
          else
            (let total_frames' = frames_rendered stats;
                 total_time' = total_time stats;
                 avg_per_frame =
                   (if total_frames' > 0 then total_time' / of_int total_frames' else 0)
             in Some \<lparr> average = format_time avg_per_frame,
                        summary_total_renders = total_renders stats,
                        last_render = format_time (last (times_list stats)) \<rparr>))"

subsection \<open>Messages, requests and the outside world\<close>

datatype exn = ZeroDivisionError | TypeError

definition exn_type_name :: "exn \<Rightarrow> string" where
  "exn_type_name x =
     (case x of ZeroDivisionError \<Rightarrow> ''ZeroDivisionError'' | TypeError \<Rightarrow> ''TypeError'')"

definition exn_str :: "exn \<Rightarrow> string" where
  "exn_str x =
     (case x of
        ZeroDivisionError \<Rightarrow> ''division by zero''
      | TypeError \<Rightarrow> [CHR 0x27] @ ''NoneType'' @ [CHR 0x27] @ '' object is not subscriptable'')"

text \<open>
  \<^verbatim>\<open>traceback.format_exc()\<close> renders the exception being handled; the model keeps
  the exception itself.
\<close>

datatype traceback = Traceback exn

text \<open>
  One constructor per f-string of the source, with the interpolated values in the
  order of the source:
  \<^item> \<open>RenderStarted engine node start_frame end_frame total_frames\<close>;
  \<^item> \<open>RenderInProgress engine node frames_done total_frames progress_percent
      progress_bar elapsed remaining completion_time average\<close>;
  \<^item> \<open>RenderInterrupted engine node frames_completed expected_frames percent
      elapsed last_frame\<close>;
  \<^item> \<open>RenderComplete engine node start_frame end_frame frames_completed duration
      average total_renders\<close>;
  \<^item> \<open>RenderFinished node duration frames_completed total_frames\<close>;
  \<^item> \<open>RenderFailed engine node elapsed\<close> (its text says that no frames were
    completed);
  \<^item> \<open>ErrorDetails node error_type error_message traceback\<close>.
\<close>

datatype message =
    RenderStarted string string int int int
  | RenderInProgress string string nat int real "bar_cell list" time_text time_text real time_text
  | RenderInterrupted string string nat int real time_text "real option"
  | RenderComplete string string int int nat time_text time_text int
  | RenderFinished string time_text nat int
  | RenderFailed string string time_text
  | ErrorDetails string string string traceback

text \<open>
  The requests issued: \<^verbatim>\<open>sendMessage\<close>, \<^verbatim>\<open>editMessageText\<close> (with the id
  of the edited message), \<^verbatim>\<open>sendPhoto\<close> and \<^verbatim>\<open>sendAnimation\<close> (with the node
  name of the caption and the frame files used).
\<close>

datatype api_call =
    SendMessage message
  | EditMessageText int message
  | SendPhoto string string
  | SendAnimation string "string list"

text \<open>
  What the outside world answers during one callback:
  \<^item> \<open>now\<close>: the reading of \<^verbatim>\<open>datetime.now()\<close>, in seconds (one reading per
    callback);
  \<^item> \<open>send_response\<close>: what \<^verbatim>\<open>send_telegram_message\<close> returns, the id of the
    sent message or \<open>None\<close>;
  \<^item> \<open>edit_raises\<close>: whether the post of an \<^verbatim>\<open>editMessageText\<close> raises;
  \<^item> \<open>output_picture\<close>: the output picture path read from the node (for an
    \<^verbatim>\<open>ifd\<close> node its \<^verbatim>\<open>vm_picture\<close>, for a \<^verbatim>\<open>usdrender_rop\<close> node the
    \<^verbatim>\<open>picture\<close> of the node it references), \<open>None\<close> when reading it raises;
  \<^item> \<open>glob_frames\<close>: what \<^verbatim>\<open>glob.glob\<close> returns for the frame pattern;
  \<^item> \<open>convertible f\<close>: whether \<^verbatim>\<open>convert_frame_to_rgb\<close> succeeds on file \<open>f\<close>;
  \<^item> \<open>media_ok\<close>: whether the response to \<^verbatim>\<open>sendPhoto\<close> is ok.
\<close>

record env =
  now :: real
  send_response :: "int option"
  edit_raises :: bool
  output_picture :: "string option"
  glob_frames :: "string list"
  convertible :: "string \<Rightarrow> bool"
  media_ok :: bool

record world =
  notifications_enabled :: bool
  current_renders :: "string \<rightharpoonup> render_state"
  session_renders :: "string \<rightharpoonup> render_stats"
  calls :: "api_call list"

text \<open>Truthiness of a message id: \<^verbatim>\<open>None\<close> and \<^verbatim>\<open>0\<close> are false.\<close>

definition truthy :: "int option \<Rightarrow> bool" where
  "truthy m = (case m of None \<Rightarrow> False | Some i \<Rightarrow> i \<noteq> 0)"

text \<open>
  \<open>send_telegram_message\<close> returns the id of the sent message, or \<open>None\<close>, and the
  requests with the new one appended. With a list of chat ids the source posts to
  them in turn and returns at the first ok response; one \<open>SendMessage\<close> entry stands
  for the posts of one call. Exceptions of the post are caught inside and logged.
\<close>

definition send_telegram_message ::
  "env \<Rightarrow> message \<Rightarrow> api_call list \<Rightarrow> int option \<times> api_call list" where
  "send_telegram_message e msg cs = (send_response e, cs @ [SendMessage msg])"

text \<open>
  The two ways the source reports on the tracked message. Both edit it when the
  state has a message id, and send the text as a new message when the edit raises;
  only the first sends a new message when there is no message id.
\<close>

definition edit_or_send :: "env \<Rightarrow> int option \<Rightarrow> message \<Rightarrow> api_call list \<Rightarrow> api_call list" where
  "edit_or_send e mid msg cs =
     (case mid of
        None \<Rightarrow> snd (send_telegram_message e msg cs)
      | Some i \<Rightarrow>
          if i \<noteq> 0
          then (if edit_raises e
                then snd (send_telegram_message e msg (cs @ [EditMessageText i msg]))
                else cs @ [EditMessageText i msg])
          else snd (send_telegram_message e msg cs))"

definition edit_if_tracked :: "env \<Rightarrow> int option \<Rightarrow> message \<Rightarrow> api_call list \<Rightarrow> api_call list" where
  "edit_if_tracked e mid msg cs =
     (case mid of
        None \<Rightarrow> cs
      | Some i \<Rightarrow>
          if i \<noteq> 0
          then (if edit_raises e
                then snd (send_telegram_message e msg (cs @ [EditMessageText i msg]))
                else cs @ [EditMessageText i msg])
          else cs)"

subsection \<open>Preview media\<close>

text \<open>
  Python's \<^verbatim>\<open>range(a, b, k)\<close> for \<open>0 \<le> a\<close> and \<open>k \<ge> 1\<close>: the numbers
  \<open>a, a + k, a + 2k, \<dots>\<close> below \<open>b\<close>. (The source calls it only with
  \<open>k = (n - 20) // 10\<close> for \<open>n > 30\<close>, which is at least 1.)
\<close>

definition py_range :: "nat \<Rightarrow> nat \<Rightarrow> nat \<Rightarrow> nat list" where
  "py_range a b k = map (\<lambda>i. a + i * k) [0 ..< (b - a + k - 1) div k]"

definition sample_indices :: "nat \<Rightarrow> nat list" where
  "sample_indices n =
     [0 ..< 10] @ py_range 10 (n - 10) ((n - 20) div 10) @ [n - 10 ..< n]"

text \<open>
  The frames the animation is built from: all of them up to 30 files, and
  \<^verbatim>\<open>[frames[i] for i in sorted(set(sample_indices))]\<close> beyond.
\<close>

definition sample_frames :: "string list \<Rightarrow> string list" where
  "sample_frames frames =
     (if length frames > 30
      then map (\<lambda>i. frames ! i) (sorted_list_of_set (set (sample_indices (length frames))))
      else frames)"

text \<open>
  \<open>send_telegram_animation n e\<close>: the returned flag and the requests issued. Frames
  whose conversion fails are skipped, as the source does.
\<close>

definition send_telegram_animation :: "node \<Rightarrow> env \<Rightarrow> bool \<times> api_call list" where
  "send_telegram_animation n e =
     (let frames = sort (glob_frames e)
      in if frames = [] then (False, [])
         else if length frames = 1 then
           (let frame_path = frames ! 0
            in if \<not> convertible e frame_path then (False, [])
               else (media_ok e, [SendPhoto (get_node_name n) frame_path]))
         else
           (let images = filter (convertible e) (sample_frames frames)
            in if images \<noteq> [] then (True, [SendAnimation (get_node_name n) images])
               else (False, [])))"

text \<open>
  The preview attempt of the completion branch, inside its own \<^verbatim>\<open>try\<close>: the
  output path is read for an \<^verbatim>\<open>ifd\<close> or a \<^verbatim>\<open>usdrender_rop\<close> node; for any
  other node type, or when reading raises, the exception is logged and nothing is
  sent.
\<close>

definition send_preview :: "node \<Rightarrow> env \<Rightarrow> api_call list" where
  "send_preview n e =
     (case type_name n of
        None \<Rightarrow> []
      | Some t \<Rightarrow>
          if t = ''ifd'' \<or> t = ''usdrender_rop'' then
            (case output_picture e of
               None \<Rightarrow> []
             | Some output_path \<Rightarrow> snd (send_telegram_animation n e))
          else [])"

subsection \<open>The render event callback\<close>

datatype event_type = PreRender | PreFrame | PostFrame | PostWrite | PostRender

definition on_pre_render :: "world \<Rightarrow> node \<Rightarrow> env \<Rightarrow> world" where
  "on_pre_render w n e =
     (let node_path = path n
      in case current_renders w node_path of
           Some st \<Rightarrow> w
         | None \<Rightarrow>
             (let st = initialize_render_state n (now e);
                  msg = RenderStarted (get_render_engine n) (get_node_name n)
                          (start_frame st) (end_frame st) (total_frames st);
                  (msg_id, cs) = send_telegram_message e msg (calls w);
                  st' = (if truthy msg_id then st\<lparr>message_id := msg_id\<rparr> else st)
              in w\<lparr> current_renders := (current_renders w)(node_path \<mapsto> st'),
                    calls := cs \<rparr>))"

text \<open>
  The figures of a progress update (lines 471 to 480 of the source), computed from
  the state when the clock reads \<open>t\<close>. The two divisions by \<open>total_frames\<close> raise
  \<^verbatim>\<open>ZeroDivisionError\<close> when it is 0.
\<close>

record figures =
  duration :: real
  frames_done :: nat
  avg_time_per_frame :: real
  estimated_total :: real
  time_remaining :: real
  progress_percent :: real
  completion_time :: real
  progress_bar :: "bar_cell list"

definition progress_figures :: "render_state \<Rightarrow> real \<Rightarrow> exn + figures" where
  "progress_figures st t =
     (let duration' = t - start_time st;
          frames_done' = fcard (completed_frames st);
          total_frames' = total_frames st;
          avg = (if frames_done' > 0 then duration' / of_nat frames_done' else 0);
          estimated = avg * of_int total_frames';
          remaining = max 0 (estimated - duration')
      in if total_frames' = 0 then Inl ZeroDivisionError
         else Inr \<lparr> duration = duration',
                    frames_done = frames_done',
                    avg_time_per_frame = avg,
                    estimated_total = estimated,
                    time_remaining = remaining,
                    progress_percent = (of_nat frames_done' / of_int total_frames') * 100,
                    completion_time = t + remaining,
                    progress_bar = get_progress_bar (of_nat frames_done' / of_int total_frames') \<rparr>)"

definition progress_message :: "node \<Rightarrow> render_state \<Rightarrow> figures \<Rightarrow> message" where
  "progress_message n st fg =
     RenderInProgress (get_render_engine n) (get_node_name n)
       (frames_done fg) (total_frames st) (progress_percent fg) (progress_bar fg)
       (format_time (duration fg)) (format_time (time_remaining fg))
       (completion_time fg) (format_time (avg_time_per_frame fg))"

text \<open>
  The handlers of the body return the world as the body leaves it, and the
  exception it raised, if any. A failed post of the progress edit is only logged.
\<close>

definition on_post_frame :: "world \<Rightarrow> node \<Rightarrow> real \<Rightarrow> env \<Rightarrow> world \<times> exn option" where
  "on_post_frame w n frame_time e =
     (let node_path = path n
      in case current_renders w node_path of
           None \<Rightarrow> (w, None)
         | Some st0 \<Rightarrow>
             (let st1 = st0\<lparr>completed_frames := finsert frame_time (completed_frames st0)\<rparr>;
                  (upd, st2) = should_update_progress st1 (now e);
                  w2 = w\<lparr>current_renders := (current_renders w)(node_path \<mapsto> st2)\<rparr>
              in if \<not> upd then (w2, None)
                 else
                   (case progress_figures st2 (now e) of
                      Inl x \<Rightarrow> (w2, Some x)
                    | Inr fg \<Rightarrow>
                        (case message_id st2 of
                           None \<Rightarrow> (w2, None)
                         | Some i \<Rightarrow>
                             if i \<noteq> 0
                             then (w2\<lparr>calls := calls w2 @
                                      [EditMessageText i (progress_message n st2 fg)]\<rparr>, None)
                             else (w2, None)))))"

definition on_post_render :: "world \<Rightarrow> node \<Rightarrow> env \<Rightarrow> world \<times> exn option" where
  "on_post_render w n e =
     (let node_path = path n
      in case current_renders w node_path of
           None \<Rightarrow> (w, None)
         | Some st \<Rightarrow>
             (let render_duration = now e - start_time st;
                  frames_completed = fcard (completed_frames st);
                  expected_frames = total_frames st
              in if 0 < frames_completed \<and> int frames_completed < expected_frames then
                   (let error_message =
                          RenderInterrupted (get_render_engine n) (get_node_name n)
                            frames_completed expected_frames
                            (of_nat frames_completed / of_int expected_frames * 100)
                            (format_time render_duration)
                            (if completed_frames st = {||} then None
                             else Some (fMax (completed_frames st)))
                    in (w\<lparr> calls := edit_if_tracked e (message_id st) error_message (calls w),
                           current_renders := (current_renders w)(node_path := None) \<rparr>,
                        None))
                 else if int frames_completed = expected_frames then
                   (let sr = update_render_stats (session_renders w) node_path
                               render_duration (int frames_completed);
                        stats = get_render_stats sr node_path;
                        w1 = w\<lparr> session_renders := sr,
                               calls := calls w @ send_preview n e \<rparr>
                    in case stats of
                         None \<Rightarrow> (w1, Some TypeError)
                       | Some su \<Rightarrow>
                           (let msg = RenderComplete (get_render_engine n) (get_node_name n)
                                        (start_frame st) (end_frame st) frames_completed
                                        (format_time render_duration)
                                        (average su) (summary_total_renders su);
                                cs = edit_or_send e (message_id st) msg (calls w1);
                                completion_message =
                                  RenderFinished (get_node_name n) (format_time render_duration)
                                    frames_completed (total_frames st)
                            in (w1\<lparr> calls := snd (send_telegram_message e completion_message cs),
                                    current_renders := (current_renders w)(node_path := None) \<rparr>,
                                None)))
                 else
                   (let error_message =
                          RenderFailed (get_render_engine n) (get_node_name n)
                            (format_time render_duration)
                    in (w\<lparr> calls := edit_or_send e (message_id st) error_message (calls w),
                           current_renders := (current_renders w)(node_path := None) \<rparr>,
                        None))))"

definition on_render_event_body ::
  "world \<Rightarrow> node \<Rightarrow> event_type \<Rightarrow> real \<Rightarrow> env \<Rightarrow> world \<times> exn option" where
  "on_render_event_body w n event frame_time e =
     (case event of
        PreRender \<Rightarrow> (on_pre_render w n e, None)
      | PostFrame \<Rightarrow> on_post_frame w n frame_time e
      | PostRender \<Rightarrow> on_post_render w n e
      | _ \<Rightarrow> (w, None))"

text \<open>
  \<open>on_render_event\<close> returns the world after the callback and the exception that
  leaves the callback, if any. The body runs inside \<^verbatim>\<open>try\<close>; the handler of
  \<^verbatim>\<open>except Exception\<close> sends the error details and deletes the entry of the node.
\<close>

definition on_render_event ::
  "world \<Rightarrow> node \<Rightarrow> event_type \<Rightarrow> real \<Rightarrow> env \<Rightarrow> world \<times> exn option" where
  "on_render_event w n event frame_time e =
     (if \<not> notifications_enabled w then (w, None)
      else
        (case on_render_event_body w n event frame_time e of
           (w', None) \<Rightarrow> (w', None)
         | (w', Some x) \<Rightarrow>
             (let error_message =
                    ErrorDetails (get_node_name n) (exn_type_name x) (exn_str x) (Traceback x);
                  cs = snd (send_telegram_message e error_message (calls w'))
              in (w'\<lparr> calls := cs,
                      current_renders := (current_renders w')(path n := None) \<rparr>, None))))"

text \<open>A render event as the host delivers it, with what the world answers during it.\<close>

record render_event =
  ev_type :: event_type
  ev_frame_time :: real
  ev_env :: env

fun run :: "world \<Rightarrow> node \<Rightarrow> render_event list \<Rightarrow> world" where
  "run w n [] = w"
| "run w n (ev # evs) =
     run (fst (on_render_event w n (ev_type ev) (ev_frame_time ev) (ev_env ev))) n evs"

subsection \<open>Example inputs\<close>

text \<open>A Mantra node rendering frames 1 to 3.\<close>

definition mantra1 :: node where
  "mantra1 =
     \<lparr> path = ''/out/mantra1'', node_name = Some ''mantra1'', type_name = Some ''ifd'',
       parm = (\<lambda>p. if p = ''trange'' then Some (EvalTo 1)
                    else if p = ''f1'' then Some (EvalTo 1)
                    else if p = ''f2'' then Some (EvalTo 3)
                    else None) \<rparr>"

subsection \<open>A session of completed renders\<close>

text \<open>
  \<^verbatim>\<open>SESSION_RENDERS\<close> starts empty and is written by \<open>update_render_stats\<close> only.
  \<open>session_after cs\<close> is the dictionary after the calls \<open>cs\<close>, each a triple of node
  path, render time and frame count.
\<close>

type_synonym stats_call = "string \<times> real \<times> int"

definition session_after :: "stats_call list \<Rightarrow> (string \<rightharpoonup> render_stats)" where
  "session_after cs =
     foldl (\<lambda>sr (node_path, render_time, frame_count).
              update_render_stats sr node_path render_time frame_count) Map.empty cs"

definition calls_for :: "string \<Rightarrow> stats_call list \<Rightarrow> stats_call list" where
  "calls_for p cs = filter (\<lambda>c. fst c = p) cs"

definition call_times :: "stats_call list \<Rightarrow> real list" where
  "call_times cs = map (\<lambda>c. fst (snd c)) cs"

definition call_frames :: "stats_call list \<Rightarrow> int list" where
  "call_frames cs = map (\<lambda>c. snd (snd c)) cs"

text \<open>
  \<open>stats_match so xs\<close>: the entry \<open>so\<close> of a node is what the calls \<open>xs\<close> for that
  node add up to: no entry without a call; otherwise the last 10 render times, at
  most 10 of them, and the number of calls, the sum of the frame counts and the sum
  of the render times over all the calls.
\<close>

definition stats_match :: "render_stats option \<Rightarrow> stats_call list \<Rightarrow> bool" where
  "stats_match so xs =
     (case so of
        None \<Rightarrow> xs = []
      | Some s \<Rightarrow>
          xs \<noteq> [] \<and>
          times_list s = drop (length xs - 10) (call_times xs) \<and>
          length (times_list s) \<le> 10 \<and>
          total_renders s = int (length xs) \<and>
          frames_rendered s = sum_list (call_frames xs) \<and>
          total_time s = sum_list (call_times xs))"

definition eleven_renders :: "stats_call list" where
  "eleven_renders =
     [(''/out/mantra1'', 1, 3), (''/out/mantra1'', 2, 3), (''/out/mantra1'', 3, 3),
      (''/out/mantra1'', 4, 3), (''/out/karma1'', 9, 1), (''/out/mantra1'', 5, 3),
      (''/out/mantra1'', 6, 3), (''/out/mantra1'', 7, 3), (''/out/mantra1'', 8, 3),
      (''/out/mantra1'', 9, 3), (''/out/mantra1'', 10, 3), (''/out/mantra1'', 11, 3)]"

subsection \<open>More example inputs\<close>

text \<open>
  A node without a frame range parameter; a world that tracks one node with a given
  state; an outside world where every request succeeds and no frame file exists.
\<close>

definition no_range_node :: node where
  "no_range_node =
     \<lparr> path = ''/out/opengl1'', node_name = Some ''opengl1'', type_name = Some ''opengl'',
       parm = (\<lambda>p. None) \<rparr>"

definition tracking :: "node \<Rightarrow> render_state \<Rightarrow> world" where
  "tracking n st =
     \<lparr> notifications_enabled = True, current_renders = [path n \<mapsto> st],
       session_renders = Map.empty, calls = [] \<rparr>"

definition quiet_env :: "real \<Rightarrow> env" where
  "quiet_env t =
     \<lparr> now = t, send_response = Some 7, edit_raises = False, output_picture = None,
       glob_frames = [], convertible = (\<lambda>f. True), media_ok = True \<rparr>"

text \<open>The state of \<open>mantra1\<close> after its start message was sent with id 7.\<close>

definition started :: render_state where
  "started = (initialize_render_state mantra1 0)\<lparr>message_id := Some 7\<rparr>"

text \<open>A world with notifications enabled and no render in progress.\<close>

definition idle :: world where
  "idle = \<lparr> notifications_enabled = True, current_renders = Map.empty,
            session_renders = Map.empty, calls = [] \<rparr>"



subsection \<open>The messages a callback issues\<close>











text \<open>A render of \<open>mantra1\<close> whose start message got no id, after frame 1.\<close>

definition unannounced :: render_state where
  "unannounced = (initialize_render_state mantra1 0)\<lparr>completed_frames := {|1|}\<rparr>"

subsection \<open>Sequences of frame events\<close>

text \<open>
  A \<open>PostFrame\<close> event from its frame time and what the world answers during it, and
  the event sequence of a list of them.
\<close>

definition post_frame_event :: "real \<times> env \<Rightarrow> render_event" where
  "post_frame_event fe = \<lparr> ev_type = PostFrame, ev_frame_time = fst fe, ev_env = snd fe \<rparr>"

definition post_frames :: "(real \<times> env) list \<Rightarrow> render_event list" where
  "post_frames fes = map post_frame_event fes"

subsection \<open>Event sequences with frames in range\<close>

text \<open>
  \<open>integral_in_range lo hi f\<close>: the frame time \<open>f\<close> is an integer between \<open>lo\<close> and
  \<open>hi\<close>. \<open>frames_in_range n evs\<close>: every \<open>PostFrame\<close> event of \<open>evs\<close> carries an integral
  frame time within \<open>start_frame .. end_frame\<close> of the states of node \<open>n\<close>, which are
  \<^verbatim>\<open>int(start)\<close> and \<^verbatim>\<open>int(end)\<close> of its sequence range. \<open>size_bounded w n\<close>: the
  state of \<open>n\<close> in \<open>w\<close>, if there is one, has at most \<open>total_frames\<close> completed frames.
  \<open>range_inv n a b w\<close>: the state of \<open>n\<close>, if there is one, counts the frames \<open>a .. b\<close> and
  has completed only frames among them.
  The example nodes have the ranges 5 to 1 and 0.5 to 1.4.
\<close>

definition integral_in_range :: "int \<Rightarrow> int \<Rightarrow> real \<Rightarrow> bool" where
  "integral_in_range lo hi f = (f = of_int \<lfloor>f\<rfloor> \<and> lo \<le> \<lfloor>f\<rfloor> \<and> \<lfloor>f\<rfloor> \<le> hi)"

definition frames_in_range :: "node \<Rightarrow> render_event list \<Rightarrow> bool" where
  "frames_in_range n evs =
     list_all (\<lambda>ev. ev_type ev = PostFrame \<longrightarrow>
                 integral_in_range (py_int (fst (get_sequence_range n)))
                   (py_int (snd (get_sequence_range n))) (ev_frame_time ev)) evs"

definition size_bounded :: "world \<Rightarrow> node \<Rightarrow> bool" where
  "size_bounded w n =
     (case current_renders w (path n) of
        None \<Rightarrow> True
      | Some st \<Rightarrow> int (fcard (completed_frames st)) \<le> total_frames st)"

definition pre_render_event :: "env \<Rightarrow> render_event" where
  "pre_render_event e = \<lparr> ev_type = PreRender, ev_frame_time = 0, ev_env = e \<rparr>"

definition reversed_range_node :: node where
  "reversed_range_node =
     \<lparr> path = ''/out/mantra3'', node_name = Some ''mantra3'', type_name = Some ''ifd'',
       parm = (\<lambda>p. if p = ''trange'' then Some (EvalTo 1)
                    else if p = ''f1'' then Some (EvalTo 5)
                    else if p = ''f2'' then Some (EvalTo 1)
                    else None) \<rparr>"

definition fractional_range_node :: node where
  "fractional_range_node =
     \<lparr> path = ''/out/mantra4'', node_name = Some ''mantra4'', type_name = Some ''ifd'',
       parm = (\<lambda>p. if p = ''trange'' then Some (EvalTo 1)
                    else if p = ''f1'' then Some (EvalTo (1 / 2))
                    else if p = ''f2'' then Some (EvalTo (7 / 5))
                    else None) \<rparr>"

definition range_inv :: "node \<Rightarrow> int \<Rightarrow> int \<Rightarrow> world \<Rightarrow> bool" where
  "range_inv n a b w =
     (case current_renders w (path n) of
        None \<Rightarrow> True
      | Some st \<Rightarrow> total_frames st = b - a + 1 \<and>
                  fset (completed_frames st) \<subseteq> of_int ` {a..b})"

definition three_frames :: "render_event list" where
  "three_frames =
     [pre_render_event (quiet_env 0), post_frame_event (1, quiet_env 1),
      post_frame_event (2, quiet_env 1), post_frame_event (2, quiet_env 1),
      post_frame_event (3, quiet_env 1)]"

subsection \<open>Media requests\<close>

text \<open>
  The requests that carry preview media, the condition of the completion branch of
  \<open>PostRender\<close>, and two outside worlds: one where a single frame file matches the
  pattern and one where 31 files match.
\<close>

fun is_media :: "api_call \<Rightarrow> bool" where
  "is_media (SendMessage m) = False"
| "is_media (EditMessageText i m) = False"
| "is_media (SendPhoto c f) = True"
| "is_media (SendAnimation c fs) = True"

definition all_frames_completed :: "world \<Rightarrow> node \<Rightarrow> bool" where
  "all_frames_completed w n =
     (case current_renders w (path n) of
        None \<Rightarrow> False
      | Some st \<Rightarrow> int (fcard (completed_frames st)) = total_frames st)"

definition single_file_env :: env where
  "single_file_env =
     \<lparr> now = 9, send_response = Some 8, edit_raises = False,
       output_picture = Some ''/tmp/render.0001.exr'',
       glob_frames = [''/tmp/render.0001.exr''], convertible = (\<lambda>f. True),
       media_ok = True \<rparr>"

definition many_files_env :: env where
  "many_files_env =
     \<lparr> now = 9, send_response = Some 8, edit_raises = False,
       output_picture = Some ''/tmp/a'',
       glob_frames = map (\<lambda>i. replicate (Suc i) (CHR ''a'')) [0 ..< 31],
       convertible = (\<lambda>f. True), media_ok = True \<rparr>"

subsection \<open>Progress edits\<close>

text \<open>
  \<open>progress_edited w w'\<close>: going from \<open>w\<close> to \<open>w'\<close>, the callback issued exactly one
  request, the edit of the tracked message with a progress report.
\<close>

definition progress_edited :: "world \<Rightarrow> world \<Rightarrow> bool" where
  "progress_edited w w' =
     (case drop (length (calls w)) (calls w') of
        [EditMessageText i (RenderInProgress a b k r p bar t u c v)] \<Rightarrow> True
      | _ \<Rightarrow> False)"

section \<open>Properties\<close>

subsection \<open>Evaluation of the examples\<close>

lemma get_sequence_range_mantra1: "get_sequence_range mantra1 = (1, 3)"
  by (simp add: get_sequence_range_def mantra1_def)

lemma initialize_render_state_mantra1:
  "initialize_render_state mantra1 t =
     \<lparr> start_time = t, message_id = None, completed_frames = {||}, total_frames = 3,
       start_frame = 1, end_frame = 3, last_update_time = t, update_interval = 2 \<rparr>"
  by (simp add: initialize_render_state_def get_sequence_range_mantra1 py_int_def)

subsection \<open>Session statistics keep the last ten render times\<close>

lemma session_after_snoc:
  "session_after (cs @ [(q, t, f)]) = update_render_stats (session_after cs) q t f"
  by (simp add: session_after_def)

lemma update_render_stats_other:
  "q \<noteq> p \<Longrightarrow> update_render_stats sr q t f p = sr p"
  by (simp add: update_render_stats_def Let_def)

lemma drop_snoc_window:
  "drop (Suc (length ts) - 10) (ts @ [t]) =
     (if 10 < Suc (length (drop (length ts - 10) ts))
      then tl (drop (length ts - 10) ts @ [t])
      else drop (length ts - 10) ts @ [t])"
proof (cases "length ts < 10")
  case True
  then show ?thesis by simp
next
  case False
  then have ge: "10 \<le> length ts" by simp
  then have "Suc (length ts) - 10 = Suc (length ts - 10)" by simp
  moreover have "drop (length ts - 10) ts \<noteq> []" using ge by simp
  ultimately show ?thesis using ge
    by (simp add: drop_Suc tl_drop)
qed

lemma update_render_stats_match:
  assumes "stats_match (sr p) xs"
  shows "stats_match (update_render_stats sr p t f p) (xs @ [(p, t, f)])"
proof (cases "sr p")
  case None
  with assms show ?thesis
    by (simp add: stats_match_def update_render_stats_def call_times_def call_frames_def)
next
  case (Some s)
  with assms have m: "xs \<noteq> []" "times_list s = drop (length xs - 10) (call_times xs)"
    "total_renders s = int (length xs)" "frames_rendered s = sum_list (call_frames xs)"
    "total_time s = sum_list (call_times xs)"
    by (simp_all add: stats_match_def)
  have len: "length (call_times xs) = length xs" by (simp add: call_times_def)
  have w: "drop (Suc (length xs) - 10) (call_times xs @ [t]) =
     (if 10 < Suc (length (drop (length xs - 10) (call_times xs)))
      then tl (drop (length xs - 10) (call_times xs) @ [t])
      else drop (length xs - 10) (call_times xs) @ [t])"
    using drop_snoc_window [of "call_times xs" t] by (simp only: len)
  have ct: "call_times (xs @ [(p, t, f)]) = call_times xs @ [t]"
    by (simp add: call_times_def)
  have cf: "call_frames (xs @ [(p, t, f)]) = call_frames xs @ [f]"
    by (simp add: call_frames_def)
  show ?thesis
    unfolding stats_match_def update_render_stats_def Let_def
    using Some m w by (simp add: ct cf len)
qed

text \<open>
  Claim C9. After every call of \<open>update_render_stats\<close> in a session, the entry of each
  node path holds at most 10 render times, namely the most recent ones in order
  (the oldest dropped first), while \<open>total_renders\<close>, \<open>frames_rendered\<close> and
  \<open>total_time\<close> count and sum over all the calls for that path.
\<close>

theorem update_render_stats_window:
  "stats_match (session_after cs p) (calls_for p cs)"
proof (induction cs rule: rev_induct)
  case Nil
  show ?case by (simp add: session_after_def stats_match_def calls_for_def)
next
  case (snoc c cs)
  obtain q t f where c: "c = (q, t, f)" by (cases c) auto
  show ?case
  proof (cases "q = p")
    case True
    with snoc c show ?thesis
      using update_render_stats_match [of "session_after cs" p "calls_for p cs" t f]
      by (simp add: session_after_snoc calls_for_def)
  next
    case False
    with snoc c show ?thesis
      by (simp add: session_after_snoc calls_for_def update_render_stats_other)
  qed
qed

theorem update_render_stats_window_witness:
  "stats_match (session_after eleven_renders ''/out/mantra1'')
     (calls_for ''/out/mantra1'' eleven_renders) \<and>
   session_after eleven_renders ''/out/mantra1'' =
     Some \<lparr> times_list = [2, 3, 4, 5, 6, 7, 8, 9, 10, 11], total_renders = 11,
            frames_rendered = 33, total_time = 66 \<rparr>"
  using update_render_stats_window [of eleven_renders "''/out/mantra1''"]
  by (simp add: eleven_renders_def session_after_def update_render_stats_def)

subsection \<open>The frame count of an initialized state\<close>

lemma py_int_ge_1: "1 \<le> x \<Longrightarrow> 1 \<le> py_int x"
  by (simp add: py_int_def le_floor_iff)

lemma total_frames_initialize:
  "get_sequence_range n = (s, e) \<Longrightarrow>
     total_frames (initialize_render_state n t) = py_int (e - s + 1)"
  by (simp add: initialize_render_state_def)

lemma get_sequence_range_default:
  "parm n ''trange'' = None \<or> parm n ''trange'' = Some EvalRaises \<or>
   parm n ''trange'' = Some (EvalTo 0) \<or>
   parm n ''f1'' = None \<or> parm n ''f1'' = Some EvalRaises \<or>
   parm n ''f2'' = None \<or> parm n ''f2'' = Some EvalRaises \<Longrightarrow>
   get_sequence_range n = (1, 1)"
  by (auto simp: get_sequence_range_def split: option.splits parm_eval.splits)

lemma progress_figures_defined:
  "total_frames st \<noteq> 0 \<Longrightarrow> \<exists>fg. progress_figures st t = Inr fg"
  by (simp add: progress_figures_def Let_def)

lemma on_post_frame_no_exception:
  assumes "current_renders w (path n) = Some st" "total_frames st \<noteq> 0"
  shows "snd (on_post_frame w n f e) = None"
proof -
  obtain u st2 where u: "should_update_progress
      (st\<lparr>completed_frames := finsert f (completed_frames st)\<rparr>) (now e) = (u, st2)"
    by (cases "should_update_progress
      (st\<lparr>completed_frames := finsert f (completed_frames st)\<rparr>) (now e)") auto
  then have "total_frames st2 = total_frames st"
    by (auto simp: should_update_progress_def Let_def split: if_splits)
  with assms(2) obtain fg where "progress_figures st2 (now e) = Inr fg"
    using progress_figures_defined [of st2 "now e"] by auto
  with assms(1) u show ?thesis
    by (simp add: on_post_frame_def Let_def split: option.splits)
qed

lemma on_post_frame_total_frames:
  assumes "current_renders w (path n) = Some st"
  shows "\<exists>st'. current_renders (fst (on_post_frame w n f e)) (path n) = Some st' \<and>
           total_frames st' = total_frames st"
  using assms
  by (auto simp: on_post_frame_def Let_def should_update_progress_def
           split: option.splits sum.splits if_splits)

text \<open>
  Claim C10. When the evaluated sequence range of a node has \<open>end \<ge> start\<close>, the
  initialized state has \<open>total_frames \<ge> 1\<close>; in particular when \<open>trange\<close> is
  absent or zero, or when evaluating \<open>trange\<close>, \<open>f1\<close> or \<open>f2\<close> fails, the range is
  \<open>(1, 1)\<close> and \<open>total_frames\<close> is 1. With \<open>total_frames \<ge> 1\<close> the progress
  figures are computed without a division by zero, and a \<open>PostFrame\<close> event raises
  no exception and leaves \<open>total_frames\<close> as it was.
\<close>

theorem total_frames_at_least_one:
  "(get_sequence_range n = (s, e) \<and> s \<le> e \<longrightarrow>
      1 \<le> total_frames (initialize_render_state n t)) \<and>
   (parm n ''trange'' = None \<or> parm n ''trange'' = Some EvalRaises \<or>
    parm n ''trange'' = Some (EvalTo 0) \<or>
    parm n ''f1'' = None \<or> parm n ''f1'' = Some EvalRaises \<or>
    parm n ''f2'' = None \<or> parm n ''f2'' = Some EvalRaises \<longrightarrow>
      get_sequence_range n = (1, 1) \<and> total_frames (initialize_render_state n t) = 1) \<and>
   (1 \<le> total_frames st \<longrightarrow> (\<exists>fg. progress_figures st t' = Inr fg)) \<and>
   (current_renders w (path n) = Some st \<and> 1 \<le> total_frames st \<longrightarrow>
      snd (on_post_frame w n f ev) = None \<and>
      (\<exists>st'. current_renders (fst (on_post_frame w n f ev)) (path n) = Some st' \<and>
             total_frames st' = total_frames st))"
proof -
  have a: "get_sequence_range n = (s, e) \<and> s \<le> e \<longrightarrow>
      1 \<le> total_frames (initialize_render_state n t)"
    using py_int_ge_1 [of "e - s + 1"] by (auto simp: total_frames_initialize)
  have b: "parm n ''trange'' = None \<or> parm n ''trange'' = Some EvalRaises \<or>
    parm n ''trange'' = Some (EvalTo 0) \<or>
    parm n ''f1'' = None \<or> parm n ''f1'' = Some EvalRaises \<or>
    parm n ''f2'' = None \<or> parm n ''f2'' = Some EvalRaises \<longrightarrow>
      get_sequence_range n = (1, 1) \<and> total_frames (initialize_render_state n t) = 1"
  proof
    assume h: "parm n ''trange'' = None \<or> parm n ''trange'' = Some EvalRaises \<or>
      parm n ''trange'' = Some (EvalTo 0) \<or>
      parm n ''f1'' = None \<or> parm n ''f1'' = Some EvalRaises \<or>
      parm n ''f2'' = None \<or> parm n ''f2'' = Some EvalRaises"
    have g: "get_sequence_range n = (1, 1)" by (rule get_sequence_range_default [OF h])
    then show "get_sequence_range n = (1, 1) \<and> total_frames (initialize_render_state n t) = 1"
      by (simp add: total_frames_initialize py_int_def)
  qed
  have c: "1 \<le> total_frames st \<longrightarrow> (\<exists>fg. progress_figures st t' = Inr fg)"
    using progress_figures_defined [of st t'] by auto
  have d: "current_renders w (path n) = Some st \<and> 1 \<le> total_frames st \<longrightarrow>
      snd (on_post_frame w n f ev) = None \<and>
      (\<exists>st'. current_renders (fst (on_post_frame w n f ev)) (path n) = Some st' \<and>
             total_frames st' = total_frames st)"
    using on_post_frame_no_exception [of w n st f ev] on_post_frame_total_frames [of w n st f ev]
    by auto
  from a b c d show ?thesis by blast
qed

theorem total_frames_at_least_one_witness:
  "get_sequence_range mantra1 = (1, 3) \<and> (1::real) \<le> 3 \<and>
   1 \<le> total_frames (initialize_render_state mantra1 0) \<and>
   parm no_range_node ''trange'' = None \<and>
   get_sequence_range no_range_node = (1, 1) \<and>
   total_frames (initialize_render_state no_range_node 0) = 1 \<and>
   (\<exists>fg. progress_figures (initialize_render_state mantra1 0) 5 = Inr fg) \<and>
   current_renders (tracking mantra1 (initialize_render_state mantra1 0)) (path mantra1) =
     Some (initialize_render_state mantra1 0) \<and>
   snd (on_post_frame (tracking mantra1 (initialize_render_state mantra1 0)) mantra1 1
          (quiet_env 5)) = None"
  using total_frames_at_least_one [of mantra1 1 3 0 "initialize_render_state mantra1 0" 5
      "tracking mantra1 (initialize_render_state mantra1 0)" 1 "quiet_env 5"]
    total_frames_at_least_one [of no_range_node 1 1 0 "initialize_render_state mantra1 0" 5
      "tracking mantra1 (initialize_render_state mantra1 0)" 1 "quiet_env 5"]
  by (simp add: get_sequence_range_mantra1 initialize_render_state_mantra1 tracking_def
        no_range_node_def)

subsection \<open>The figures of a progress update\<close>

lemma started_eq:
  "started =
     \<lparr> start_time = 0, message_id = Some 7, completed_frames = {||}, total_frames = 3,
       start_frame = 1, end_frame = 3, last_update_time = 0, update_interval = 2 \<rparr>"
  by (simp add: started_def initialize_render_state_mantra1)

lemma engine_mantra1: "get_render_engine mantra1 = ''Mantra''"
  by (simp add: get_render_engine_def mantra1_def)

lemma name_mantra1: "get_node_name mantra1 = ''mantra1''"
  by (simp add: get_node_name_def mantra1_def)

lemma path_mantra1: "path mantra1 = ''/out/mantra1''"
  by (simp add: mantra1_def)

lemma format_time_examples:
  "format_time 4 = Secs 4" "format_time 8 = Secs 8" "format_time 75 = MS 1 15"
  "format_time 3725 = HMS 1 2 5"
  by (simp_all add: format_time_def py_int_def py_floordiv_def py_fmod_def)

lemma fcard_finsert_pos: "0 < fcard (finsert x A)"
  by (simp add: fcard_finsert)

lemma on_post_frame_calls:
  assumes "current_renders w (path n) = Some st0"
  shows "calls (fst (on_post_frame w n f e)) =
     (let st1 = st0\<lparr>completed_frames := finsert f (completed_frames st0)\<rparr>
      in if update_interval st0 \<le> now e - last_update_time st0 \<and> total_frames st0 \<noteq> 0 \<and>
            truthy (message_id st0)
         then calls w @ [EditMessageText (the (message_id st0))
                (progress_message n (st1\<lparr>last_update_time := now e\<rparr>)
                   (projr (progress_figures (st1\<lparr>last_update_time := now e\<rparr>) (now e))))]
         else calls w)"
  using assms
  by (auto simp: on_post_frame_def Let_def should_update_progress_def truthy_def
        progress_figures_def split: option.splits sum.splits)

lemma on_post_frame_untracked:
  "current_renders w (path n) = None \<Longrightarrow> on_post_frame w n f e = (w, None)"
  by (simp add: on_post_frame_def)

text \<open>
  Claim C6. Whenever a \<open>PostFrame\<close> event sends a progress update, the update is the
  edit of the tracked message with the figures of the source: with \<open>k > 0\<close> frames
  done out of \<open>total\<close> and \<open>elapsed\<close> seconds since the start, the percent is
  \<open>(k / total) * 100\<close>, the average per frame is \<open>elapsed / k\<close> and the remaining
  time is \<open>max 0 (average * total - elapsed)\<close>, which is not negative. (The message
  shows the percent with one decimal and the times through \<open>format_time\<close>.)
\<close>

theorem progress_update_figures:
  assumes "calls (fst (on_post_frame w n f e)) \<noteq> calls w"
  shows "\<exists>st0 i. current_renders w (path n) = Some st0 \<and> message_id st0 = Some i \<and>
     (let k = fcard (finsert f (completed_frames st0));
          total = total_frames st0;
          elapsed = now e - start_time st0;
          percent = (of_nat k / of_int total) * 100;
          average = elapsed / of_nat k;
          remaining = max 0 (average * of_int total - elapsed)
      in 0 < k \<and> total \<noteq> 0 \<and> 0 \<le> remaining \<and>
         calls (fst (on_post_frame w n f e)) =
           calls w @
           [EditMessageText i
              (RenderInProgress (get_render_engine n) (get_node_name n) k total percent
                 (get_progress_bar (of_nat k / of_int total))
                 (format_time elapsed) (format_time remaining)
                 (now e + remaining) (format_time average))])"
proof (cases "current_renders w (path n)")
  case None
  with assms show ?thesis by (simp add: on_post_frame_untracked)
next
  case (Some st0)
  from assms on_post_frame_calls [OF Some, of f e]
  have c: "update_interval st0 \<le> now e - last_update_time st0" "total_frames st0 \<noteq> 0"
    "truthy (message_id st0)"
    by (auto simp: Let_def split: if_splits)
  then obtain i where i: "message_id st0 = Some i"
    by (auto simp: truthy_def split: option.splits)
  show ?thesis
    using Some i c on_post_frame_calls [OF Some, of f e]
    by (simp add: Let_def progress_figures_def progress_message_def fcard_finsert_pos)
qed

theorem progress_update_figures_witness:
  "calls (fst (on_post_frame (tracking mantra1 started) mantra1 1 (quiet_env 4))) \<noteq>
     calls (tracking mantra1 started) \<and>
   calls (fst (on_post_frame (tracking mantra1 started) mantra1 1 (quiet_env 4))) =
     [EditMessageText 7
        (RenderInProgress ''Mantra'' ''mantra1'' 1 3 (100 / 3) (get_progress_bar (1 / 3))
           (Secs 4) (Secs 8) 12 (Secs 4))]"
  using progress_update_figures [of "tracking mantra1 started" mantra1 1 "quiet_env 4"]
  by (simp add: on_post_frame_def tracking_def quiet_env_def started_eq path_mantra1
        should_update_progress_def progress_figures_def progress_message_def
        engine_mantra1 name_mantra1 format_time_examples fcard_finsert_if fcard_fempty Let_def)

subsection \<open>The life cycle of an entry of the render-state dictionary\<close>

lemma on_post_render_entry:
  "case on_post_render w n e of
     (w', None) \<Rightarrow> current_renders w' (path n) = None
   | (w', Some x) \<Rightarrow> True"
  by (simp add: on_post_render_def Let_def split: option.splits)

lemma on_post_render_others:
  "p \<noteq> path n \<Longrightarrow> current_renders (fst (on_post_render w n e)) p = current_renders w p"
  by (simp add: on_post_render_def Let_def split: option.splits)

lemma on_post_frame_others:
  "p \<noteq> path n \<Longrightarrow> current_renders (fst (on_post_frame w n f e)) p = current_renders w p"
  by (simp add: on_post_frame_def Let_def split: option.splits sum.splits prod.splits)

lemma on_pre_render_others:
  "p \<noteq> path n \<Longrightarrow> current_renders (on_pre_render w n e) p = current_renders w p"
  by (simp add: on_pre_render_def Let_def send_telegram_message_def split: option.splits)

lemma on_pre_render_tracked:
  "current_renders w (path n) = Some st \<Longrightarrow> on_pre_render w n e = w"
  by (simp add: on_pre_render_def)

lemma on_pre_render_untracked:
  "current_renders w (path n) = None \<Longrightarrow>
   on_pre_render w n e =
     w\<lparr> current_renders := (current_renders w)(path n \<mapsto>
            (if truthy (send_response e)
             then (initialize_render_state n (now e))\<lparr>message_id := send_response e\<rparr>
             else initialize_render_state n (now e))),
        calls := calls w @
          [SendMessage (RenderStarted (get_render_engine n) (get_node_name n)
             (start_frame (initialize_render_state n (now e)))
             (end_frame (initialize_render_state n (now e)))
             (total_frames (initialize_render_state n (now e))))] \<rparr>"
  by (simp add: on_pre_render_def Let_def send_telegram_message_def)

lemma on_post_frame_keeps_untracked:
  "current_renders w p = None \<Longrightarrow> current_renders (fst (on_post_frame w n f e)) p = None"
proof (cases "p = path n")
  case True
  assume "current_renders w p = None"
  with True show ?thesis by (simp add: on_post_frame_def)
next
  case False
  assume "current_renders w p = None"
  with False show ?thesis by (simp add: on_post_frame_others)
qed

lemma on_post_render_keeps_untracked:
  "current_renders w p = None \<Longrightarrow> current_renders (fst (on_post_render w n e)) p = None"
proof (cases "p = path n")
  case True
  assume "current_renders w p = None"
  with True show ?thesis by (simp add: on_post_render_def)
next
  case False
  assume "current_renders w p = None"
  with False show ?thesis by (simp add: on_post_render_others)
qed

lemma on_render_event_others:
  "p \<noteq> path n \<Longrightarrow>
   current_renders (fst (on_render_event w n ev f e)) p = current_renders w p"
proof (cases ev)
  case PreRender
  assume "p \<noteq> path n"
  with PreRender show ?thesis
    by (simp add: on_render_event_def on_render_event_body_def on_pre_render_others)
next
  case PostFrame
  assume "p \<noteq> path n"
  with PostFrame on_post_frame_others [of p n w f e] show ?thesis
    by (cases "on_post_frame w n f e")
      (auto simp: on_render_event_def on_render_event_body_def Let_def split: option.splits)
next
  case PostRender
  assume "p \<noteq> path n"
  with PostRender on_post_render_others [of p n w e] show ?thesis
    by (cases "on_post_render w n e")
      (auto simp: on_render_event_def on_render_event_body_def Let_def split: option.splits)
qed (simp_all add: on_render_event_def on_render_event_body_def)

lemma on_render_event_creates:
  assumes "current_renders w p = None"
    and "current_renders (fst (on_render_event w n ev f e)) p \<noteq> None"
  shows "ev = PreRender \<and> p = path n \<and> notifications_enabled w"
proof -
  have p: "p = path n"
  proof (rule ccontr)
    assume "p \<noteq> path n"
    then have "current_renders (fst (on_render_event w n ev f e)) p = current_renders w p"
      by (rule on_render_event_others)
    with assms show False by simp
  qed
  have en: "notifications_enabled w"
  proof (rule ccontr)
    assume "\<not> notifications_enabled w"
    then have "on_render_event w n ev f e = (w, None)" by (simp add: on_render_event_def)
    with assms show False by simp
  qed
  have "ev = PreRender"
  proof (cases ev)
    case PostFrame
    with assms on_post_frame_keeps_untracked [of w p n f e] show ?thesis
      by (cases "on_post_frame w n f e")
        (auto simp: on_render_event_def on_render_event_body_def Let_def
              split: option.splits if_splits)
  next
    case PostRender
    with assms on_post_render_keeps_untracked [of w p n e] show ?thesis
      by (cases "on_post_render w n e")
        (auto simp: on_render_event_def on_render_event_body_def Let_def
              split: option.splits if_splits)
  qed (use assms in \<open>auto simp: on_render_event_def on_render_event_body_def split: if_splits\<close>)
  with p en show ?thesis by simp
qed

lemma on_render_event_post_render_deletes:
  "notifications_enabled w \<Longrightarrow>
   current_renders (fst (on_render_event w n PostRender f e)) (path n) = None"
  using on_post_render_entry [where w = w and n = n and e = e]
  by (cases "on_post_render w n e")
    (auto simp: on_render_event_def on_render_event_body_def Let_def split: option.splits)

text \<open>
  Claim C4. A \<open>PreRender\<close> event for a node that already has an entry in
  \<^verbatim>\<open>CURRENT_RENDERS\<close> returns with the world unchanged: no state is modified and
  no message is sent. An entry appears only through a \<open>PreRender\<close> event of that
  node, and then it is the freshly initialized state (with the id of the start
  message, if one came back). Every \<open>PostRender\<close> event handled with notifications
  enabled leaves the node without an entry, on the normal and on the exceptional
  path.
\<close>

theorem render_state_lifecycle:
  "(current_renders w (path n) \<noteq> None \<longrightarrow>
      on_render_event w n PreRender f e = (w, None)) \<and>
   (current_renders w p = None \<and>
    current_renders (fst (on_render_event w n ev f e)) p \<noteq> None \<longrightarrow>
      ev = PreRender \<and> p = path n) \<and>
   (notifications_enabled w \<and> current_renders w (path n) = None \<longrightarrow>
      (\<exists>m. current_renders (fst (on_render_event w n PreRender f e)) (path n) =
             Some ((initialize_render_state n (now e))\<lparr>message_id := m\<rparr>))) \<and>
   (notifications_enabled w \<longrightarrow>
      current_renders (fst (on_render_event w n PostRender f e)) (path n) = None)"
proof -
  have a: "current_renders w (path n) \<noteq> None \<longrightarrow>
      on_render_event w n PreRender f e = (w, None)"
    by (auto simp: on_render_event_def on_render_event_body_def on_pre_render_tracked)
  have b: "current_renders w p = None \<and>
    current_renders (fst (on_render_event w n ev f e)) p \<noteq> None \<longrightarrow>
      ev = PreRender \<and> p = path n"
    using on_render_event_creates [of w p n ev f e] by blast
  have c: "notifications_enabled w \<and> current_renders w (path n) = None \<longrightarrow>
      (\<exists>m. current_renders (fst (on_render_event w n PreRender f e)) (path n) =
             Some ((initialize_render_state n (now e))\<lparr>message_id := m\<rparr>))"
  proof (intro impI, elim conjE)
    assume en: "notifications_enabled w" and un: "current_renders w (path n) = None"
    have i: "(initialize_render_state n (now e))\<lparr>message_id := None\<rparr> =
        initialize_render_state n (now e)"
      by (simp add: initialize_render_state_def Let_def split: prod.splits)
    show "\<exists>m. current_renders (fst (on_render_event w n PreRender f e)) (path n) =
             Some ((initialize_render_state n (now e))\<lparr>message_id := m\<rparr>)"
    proof (cases "truthy (send_response e)")
      case True
      with en un have "current_renders (fst (on_render_event w n PreRender f e)) (path n) =
          Some ((initialize_render_state n (now e))\<lparr>message_id := send_response e\<rparr>)"
        by (simp add: on_render_event_def on_render_event_body_def on_pre_render_untracked)
      then show ?thesis by blast
    next
      case False
      with en un i have "current_renders (fst (on_render_event w n PreRender f e)) (path n) =
          Some ((initialize_render_state n (now e))\<lparr>message_id := None\<rparr>)"
        by (simp add: on_render_event_def on_render_event_body_def on_pre_render_untracked)
      then show ?thesis by blast
    qed
  qed
  have d: "notifications_enabled w \<longrightarrow>
      current_renders (fst (on_render_event w n PostRender f e)) (path n) = None"
    by (simp add: on_render_event_post_render_deletes)
  from a b c d show ?thesis by blast
qed


theorem render_state_lifecycle_witness:
  "current_renders (tracking mantra1 started) (path mantra1) \<noteq> None \<and>
   on_render_event (tracking mantra1 started) mantra1 PreRender 0 (quiet_env 1) =
     (tracking mantra1 started, None) \<and>
   notifications_enabled idle \<and> current_renders idle (path mantra1) = None \<and>
   current_renders (fst (on_render_event idle mantra1 PreRender 0 (quiet_env 0)))
     (path mantra1) = Some started \<and>
   notifications_enabled (tracking mantra1 started) \<and>
   current_renders (fst (on_render_event (tracking mantra1 started) mantra1 PostRender 0
     (quiet_env 9))) (path mantra1) = None"
  using render_state_lifecycle [where w = "tracking mantra1 started" and n = mantra1
      and f = 0 and e = "quiet_env 1" and p = "path mantra1" and ev = PreRender]
    render_state_lifecycle [where w = "tracking mantra1 started" and n = mantra1
      and f = 0 and e = "quiet_env 9" and p = "path mantra1" and ev = PostRender]
    render_state_lifecycle [where w = idle and n = mantra1
      and f = 0 and e = "quiet_env 0" and p = "path mantra1" and ev = PreRender]
  by (simp add: tracking_def idle_def quiet_env_def started_def
        on_render_event_def on_render_event_body_def on_pre_render_def
        send_telegram_message_def truthy_def Let_def)

subsection \<open>Exceptions of the callback\<close>


lemma get_render_stats_after_update:
  "get_render_stats (update_render_stats sr p t f) p \<noteq> None"
proof -
  have "tl (xs @ [t]) \<noteq> []" if "10 < length (xs @ [t])" for xs :: "real list"
    using that by (cases xs) auto
  then show ?thesis
    by (auto simp: get_render_stats_def update_render_stats_def Let_def split: option.splits)
qed

lemma on_post_render_no_exception: "snd (on_post_render w n e) = None"
  by (simp add: on_post_render_def Let_def get_render_stats_after_update
        split: option.splits)

lemma on_render_event_body_raises:
  assumes "on_render_event_body w n ev f e = (w', Some x)"
  shows "ev = PostFrame \<and> x = ZeroDivisionError \<and>
         (\<exists>st. current_renders w (path n) = Some st \<and> total_frames st = 0)"
proof (cases ev)
  case PostFrame
  show ?thesis
  proof (cases "current_renders w (path n)")
    case None
    with assms PostFrame show ?thesis
      by (simp add: on_render_event_body_def on_post_frame_def)
  next
    case (Some st)
    have "total_frames st = 0"
    proof (rule ccontr)
      assume "total_frames st \<noteq> 0"
      from on_post_frame_no_exception [OF Some this, of f e] assms PostFrame
      show False by (simp add: on_render_event_body_def)
    qed
    moreover have "x = ZeroDivisionError"
      using assms PostFrame Some
      by (auto simp: on_render_event_body_def on_post_frame_def Let_def progress_figures_def
            split: prod.splits if_splits option.splits sum.splits)
    ultimately show ?thesis using PostFrame Some by simp
  qed
next
  case PostRender
  with assms on_post_render_no_exception [of w n e] show ?thesis
    by (simp add: on_render_event_body_def)
qed (use assms in \<open>simp_all add: on_render_event_body_def\<close>)



subsection \<open>The report of a finished render\<close>



lemma edit_or_send_append: "edit_or_send e mid m cs = cs @ edit_or_send e mid m []"
  by (simp add: edit_or_send_def send_telegram_message_def split: option.splits)


lemma drop_edit_or_send:
  "drop (length cs) (edit_or_send e mid m (cs @ xs)) = xs @ edit_or_send e mid m []"
  using edit_or_send_append [of e mid m "cs @ xs"] by simp






lemma on_render_event_post_render:
  "notifications_enabled w \<Longrightarrow>
   fst (on_render_event w n PostRender f e) = fst (on_post_render w n e)"
  using on_post_render_no_exception [of w n e]
  by (cases "on_post_render w n e")
    (simp add: on_render_event_def on_render_event_body_def)









text \<open>
  The interrupted branch has no \<^verbatim>\<open>else\<close> for a state without a message id, unlike
  the two other branches: the render below is interrupted after 1 of 3 frames and
  nothing is sent.
\<close>

lemma post_render_interrupted_silent:
  "fcard (completed_frames unannounced) = 1 \<and> total_frames unannounced = 3 \<and>
   message_id unannounced = None \<and>
   calls (fst (on_render_event (tracking mantra1 unannounced) mantra1 PostRender 0
     (quiet_env 9))) = []"
  by (simp add: on_render_event_def on_render_event_body_def on_post_render_def
        tracking_def quiet_env_def unannounced_def initialize_render_state_mantra1
        path_mantra1 fcard_finsert_if fcard_fempty edit_if_tracked_def Let_def)


subsection \<open>Frame events are idempotent and unordered\<close>


lemma on_post_frame_state:
  assumes "current_renders w (path n) = Some st"
  shows "\<exists>st'. current_renders (fst (on_post_frame w n f e)) (path n) = Some st' \<and>
           completed_frames st' = finsert f (completed_frames st) \<and>
           total_frames st' = total_frames st \<and> start_frame st' = start_frame st \<and>
           end_frame st' = end_frame st"
  using assms
  by (auto simp: on_post_frame_def Let_def should_update_progress_def
           split: option.splits sum.splits if_splits)

lemma on_render_event_post_frame_state:
  assumes "current_renders (fst (on_render_event w n PostFrame f e)) (path n) = Some st'"
  shows "\<exists>st. current_renders w (path n) = Some st \<and>
           completed_frames st' =
             (if notifications_enabled w then finsert f (completed_frames st)
              else completed_frames st) \<and>
           total_frames st' = total_frames st \<and> start_frame st' = start_frame st \<and>
           end_frame st' = end_frame st"
proof (cases "notifications_enabled w")
  case False
  with assms show ?thesis by (simp add: on_render_event_def)
next
  case True
  show ?thesis
  proof (cases "current_renders w (path n)")
    case None
    with assms True show ?thesis
      by (simp add: on_render_event_def on_render_event_body_def on_post_frame_untracked)
  next
    case (Some st)
    from on_post_frame_state [OF Some, of f e] obtain s1 where
      s1: "current_renders (fst (on_post_frame w n f e)) (path n) = Some s1"
        "completed_frames s1 = finsert f (completed_frames st)"
        "total_frames s1 = total_frames st" "start_frame s1 = start_frame st"
        "end_frame s1 = end_frame st" by blast
    have "current_renders (fst (on_render_event w n PostFrame f e)) (path n) = Some s1"
      using assms True s1(1)
      by (cases "on_post_frame w n f e")
        (auto simp: on_render_event_def on_render_event_body_def Let_def
           split: option.splits)
    with assms have "st' = s1" by simp
    with s1 Some True show ?thesis by simp
  qed
qed


lemma run_post_frames_cons:
  "run w n (post_frames (fe # fes)) =
     run (fst (on_render_event w n PostFrame (fst fe) (snd fe))) n (post_frames fes)"
  by (simp add: post_frames_def post_frame_event_def)









subsection \<open>The size of the completed-frame set\<close>

lemma py_int_of_int: "py_int (of_int i) = i"
  by (simp add: py_int_def)

lemma initialize_render_state_integral:
  assumes "get_sequence_range n = (of_int a, of_int b)"
  shows "total_frames (initialize_render_state n t) = b - a + 1"
    and "start_frame (initialize_render_state n t) = a"
    and "end_frame (initialize_render_state n t) = b"
    and "completed_frames (initialize_render_state n t) = {||}"
proof -
  have "py_int (of_int b - of_int a + 1) = b - a + 1"
    using py_int_of_int [of "b - a + 1"] by simp
  then show "total_frames (initialize_render_state n t) = b - a + 1"
    using assms by (simp add: initialize_render_state_def)
  show "start_frame (initialize_render_state n t) = a"
    "end_frame (initialize_render_state n t) = b"
    "completed_frames (initialize_render_state n t) = {||}"
    using assms by (simp_all add: initialize_render_state_def py_int_of_int)
qed

lemma integral_in_range_image: "integral_in_range a b f \<Longrightarrow> f \<in> of_int ` {a..b}"
  unfolding integral_in_range_def by (metis atLeastAtMost_iff imageI)

lemma range_inv_bound:
  assumes "range_inv n a b w" "a \<le> b + 1"
  shows "size_bounded w n"
proof (cases "current_renders w (path n)")
  case None
  then show ?thesis by (simp add: size_bounded_def)
next
  case (Some st)
  with assms(1) have t: "total_frames st = b - a + 1"
    and s: "fset (completed_frames st) \<subseteq> (of_int ` {a..b} :: real set)"
    by (simp_all add: range_inv_def)
  have "card (fset (completed_frames st)) \<le> card (of_int ` {a..b} :: real set)"
    using s by (intro card_mono) auto
  also have "\<dots> \<le> card {a..b}" by (rule card_image_le) simp
  also have "\<dots> = nat (b - a + 1)" by simp
  finally have "fcard (completed_frames st) \<le> nat (b - a + 1)"
    by (simp add: fcard.rep_eq)
  with assms(2) t Some show ?thesis by (simp add: size_bounded_def)
qed

lemma on_render_event_disabled:
  "\<not> notifications_enabled w \<Longrightarrow> on_render_event w n ev f e = (w, None)"
  by (simp add: on_render_event_def)

lemma range_inv_step:
  assumes inv: "range_inv n a b w"
    and rng: "get_sequence_range n = (of_int a, of_int b)"
    and fr: "ev = PostFrame \<longrightarrow> integral_in_range a b f"
  shows "range_inv n a b (fst (on_render_event w n ev f e))"
proof (cases "notifications_enabled w")
  case False
  with inv show ?thesis by (simp add: on_render_event_disabled)
next
  case True
  show ?thesis
  proof (cases ev)
    case PreRender
    show ?thesis
    proof (cases "current_renders w (path n)")
      case None
      with True PreRender show ?thesis
        using initialize_render_state_integral [OF rng, of "now e"]
        by (simp add: on_render_event_def on_render_event_body_def on_pre_render_untracked
              range_inv_def)
    next
      case (Some st)
      with True PreRender inv show ?thesis
        by (simp add: on_render_event_def on_render_event_body_def on_pre_render_tracked)
    qed
  next
    case PostFrame
    show ?thesis
    proof (cases "current_renders (fst (on_render_event w n PostFrame f e)) (path n)")
      case None
      with PostFrame show ?thesis by (simp add: range_inv_def)
    next
      case (Some st')
      from on_render_event_post_frame_state [OF Some] True obtain st where
        st: "current_renders w (path n) = Some st"
          "completed_frames st' = finsert f (completed_frames st)"
          "total_frames st' = total_frames st" by auto
      from fr PostFrame have "f \<in> of_int ` {a..b}" by (simp add: integral_in_range_image)
      with inv st Some PostFrame show ?thesis by (simp add: range_inv_def)
    qed
  next
    case PostRender
    with True show ?thesis
      by (simp add: on_render_event_post_render_deletes range_inv_def)
  next
    case PreFrame
    with inv show ?thesis by (simp add: on_render_event_def on_render_event_body_def)
  next
    case PostWrite
    with inv show ?thesis by (simp add: on_render_event_def on_render_event_body_def)
  qed
qed

lemma range_inv_run:
  assumes "range_inv n a b w"
    and "get_sequence_range n = (of_int a, of_int b)"
    and "frames_in_range n evs"
  shows "range_inv n a b (run w n evs)"
  using assms
proof (induction evs arbitrary: w)
  case Nil
  then show ?case by simp
next
  case (Cons ev evs)
  from Cons.prems(2,3) have f: "ev_type ev = PostFrame \<longrightarrow> integral_in_range a b (ev_frame_time ev)"
    and r: "frames_in_range n evs"
    by (simp_all add: frames_in_range_def py_int_of_int)
  from range_inv_step [OF Cons.prems(1,2) f]
  have "range_inv n a b (fst (on_render_event w n (ev_type ev) (ev_frame_time ev) (ev_env ev)))" .
  from Cons.IH [OF this Cons.prems(2) r] show ?case by simp
qed

lemma frames_in_range_take: "frames_in_range n evs \<Longrightarrow> frames_in_range n (take k evs)"
  unfolding frames_in_range_def list_all_iff by (meson in_set_takeD)

text \<open>
  Claim C2, as the code has it. For a node whose sequence range has an integral start
  and an integral end with \<open>end \<ge> start - 1\<close>, and for every sequence of render events,
  from a world where the node has no entry, in which each \<open>PostFrame\<close> event carries
  an integral frame time within \<open>start_frame .. end_frame\<close>: after every event the
  completed-frame set has at most \<open>total_frames\<close> elements.
\<close>

theorem frame_set_size_bounded:
  assumes "get_sequence_range n = (of_int a, of_int b)" and "a \<le> b + 1"
    and "current_renders w (path n) = None"
    and "frames_in_range n evs"
  shows "size_bounded (run w n (take k evs)) n"
proof -
  have "range_inv n a b w" using assms(3) by (simp add: range_inv_def)
  from range_inv_run [OF this assms(1) frames_in_range_take [OF assms(4)]]
  have "range_inv n a b (run w n (take k evs))" .
  from range_inv_bound [OF this assms(2)] show ?thesis .
qed


lemma on_pre_render_idle:
  "on_render_event idle n PreRender f (quiet_env t) =
     (idle\<lparr> current_renders := [path n \<mapsto> (initialize_render_state n t)\<lparr>message_id := Some 7\<rparr>],
            calls := [SendMessage (RenderStarted (get_render_engine n) (get_node_name n)
               (start_frame (initialize_render_state n t))
               (end_frame (initialize_render_state n t))
               (total_frames (initialize_render_state n t)))] \<rparr>, None)"
  by (simp add: on_render_event_def on_render_event_body_def on_pre_render_def idle_def
        quiet_env_def send_telegram_message_def truthy_def Let_def)

lemma reversed_range_node_names:
  "get_render_engine reversed_range_node = ''Mantra''"
  "get_node_name reversed_range_node = ''mantra3''"
  "path reversed_range_node = ''/out/mantra3''"
  by (simp_all add: get_render_engine_def get_node_name_def reversed_range_node_def)

lemma fractional_range_node_names:
  "get_render_engine fractional_range_node = ''Mantra''"
  "get_node_name fractional_range_node = ''mantra4''"
  "path fractional_range_node = ''/out/mantra4''"
  by (simp_all add: get_render_engine_def get_node_name_def fractional_range_node_def)

lemma initialize_render_state_reversed:
  "initialize_render_state reversed_range_node t =
     \<lparr> start_time = t, message_id = None, completed_frames = {||}, total_frames = - 3,
       start_frame = 5, end_frame = 1, last_update_time = t, update_interval = 2 \<rparr>"
  by (simp add: initialize_render_state_def get_sequence_range_def reversed_range_node_def
        py_int_def)

lemma get_sequence_range_fractional:
  "get_sequence_range fractional_range_node = (1 / 2, 7 / 5)"
  by (simp add: get_sequence_range_def fractional_range_node_def)

lemma py_int_fractional: "py_int (1 / 2) = 0" "py_int (7 / 5) = 1" "py_int (7 / 5 - 1 / 2 + 1) = 1"
  by (simp_all add: py_int_def)

lemma initialize_render_state_fractional:
  "initialize_render_state fractional_range_node t =
     \<lparr> start_time = t, message_id = None, completed_frames = {||}, total_frames = 1,
       start_frame = 0, end_frame = 1, last_update_time = t, update_interval = 2 \<rparr>"
  by (simp add: initialize_render_state_def get_sequence_range_fractional py_int_def)

lemma post_frame_quiet:
  "w = \<lparr> notifications_enabled = True, current_renders = [path n \<mapsto> st],
         session_renders = sr, calls = cs \<rparr> \<Longrightarrow>
   t - last_update_time st < update_interval st \<Longrightarrow>
   on_render_event w n PostFrame f (quiet_env t) =
     (w\<lparr>current_renders := [path n \<mapsto> st\<lparr>completed_frames := finsert f (completed_frames st)\<rparr>]\<rparr>,
      None)"
  by (simp add: on_render_event_def on_render_event_body_def on_post_frame_def quiet_env_def
        should_update_progress_def Let_def)

text \<open>
  Without the condition on the range the bound fails. With the range 5 to 1 the fresh
  state has \<open>total_frames = -3\<close> and no frame. With the range 0.5 to 1.4 the state has
  \<open>start_frame = 0\<close>, \<open>end_frame = 1\<close> and \<open>total_frames = 1\<close>, and the frames 0 and 1
  are both within range.
\<close>

theorem frame_set_size_counterexample:
  "current_renders idle (path reversed_range_node) = None \<and>
   frames_in_range reversed_range_node [pre_render_event (quiet_env 0)] \<and>
   current_renders (run idle reversed_range_node [pre_render_event (quiet_env 0)])
       (path reversed_range_node) =
     Some \<lparr> start_time = 0, message_id = Some 7, completed_frames = {||}, total_frames = - 3,
            start_frame = 5, end_frame = 1, last_update_time = 0, update_interval = 2 \<rparr> \<and>
   \<not> size_bounded (run idle reversed_range_node [pre_render_event (quiet_env 0)])
       reversed_range_node \<and>
   current_renders idle (path fractional_range_node) = None \<and>
   frames_in_range fractional_range_node
     [pre_render_event (quiet_env 0), post_frame_event (0, quiet_env 1),
      post_frame_event (1, quiet_env 1)] \<and>
   current_renders (run idle fractional_range_node
       [pre_render_event (quiet_env 0), post_frame_event (0, quiet_env 1),
        post_frame_event (1, quiet_env 1)]) (path fractional_range_node) =
     Some \<lparr> start_time = 0, message_id = Some 7, completed_frames = {|1, 0|}, total_frames = 1,
            start_frame = 0, end_frame = 1, last_update_time = 0, update_interval = 2 \<rparr> \<and>
   \<not> size_bounded (run idle fractional_range_node
       [pre_render_event (quiet_env 0), post_frame_event (0, quiet_env 1),
        post_frame_event (1, quiet_env 1)]) fractional_range_node"
proof -
  have r: "run idle reversed_range_node [pre_render_event (quiet_env 0)] =
      idle\<lparr> current_renders := [path reversed_range_node \<mapsto>
          \<lparr> start_time = 0, message_id = Some 7, completed_frames = {||}, total_frames = - 3,
            start_frame = 5, end_frame = 1, last_update_time = 0, update_interval = 2 \<rparr>],
        calls := [SendMessage (RenderStarted ''Mantra'' ''mantra3'' 5 1 (- 3))] \<rparr>"
    by (simp add: pre_render_event_def on_pre_render_idle initialize_render_state_reversed
          reversed_range_node_names)
  have p: "fst (on_render_event idle fractional_range_node PreRender 0 (quiet_env 0)) =
      \<lparr> notifications_enabled = True, current_renders = [path fractional_range_node \<mapsto>
          \<lparr> start_time = 0, message_id = Some 7, completed_frames = {||}, total_frames = 1,
            start_frame = 0, end_frame = 1, last_update_time = 0, update_interval = 2 \<rparr>],
        session_renders = Map.empty,
        calls = [SendMessage (RenderStarted ''Mantra'' ''mantra4'' 0 1 1)] \<rparr>"
    unfolding on_pre_render_idle
    by (simp add: initialize_render_state_fractional idle_def fractional_range_node_names)
  have q: "run idle fractional_range_node
       [pre_render_event (quiet_env 0), post_frame_event (0, quiet_env 1),
        post_frame_event (1, quiet_env 1)] =
      \<lparr> notifications_enabled = True, current_renders = [path fractional_range_node \<mapsto>
          \<lparr> start_time = 0, message_id = Some 7, completed_frames = {|1, 0|}, total_frames = 1,
            start_frame = 0, end_frame = 1, last_update_time = 0, update_interval = 2 \<rparr>],
        session_renders = Map.empty,
        calls = [SendMessage (RenderStarted ''Mantra'' ''mantra4'' 0 1 1)] \<rparr>"
    by (simp add: pre_render_event_def post_frame_event_def p post_frame_quiet)
  have i: "integral_in_range 0 1 0" "integral_in_range 0 1 1"
    by (simp_all add: integral_in_range_def)
  show ?thesis
    unfolding r q
    by (simp add: idle_def size_bounded_def frames_in_range_def pre_render_event_def
          post_frame_event_def get_sequence_range_fractional py_int_fractional i
          fcard_finsert_if fcard_fempty reversed_range_node_names
          fractional_range_node_names)
qed

theorem frame_set_size_bounded_witness:
  "get_sequence_range mantra1 = (of_int 1, of_int 3) \<and> (1::int) \<le> 3 + 1 \<and>
   current_renders idle (path mantra1) = None \<and>
   frames_in_range mantra1 three_frames \<and>
   size_bounded (run idle mantra1 (take 5 three_frames)) mantra1"
proof -
  have g: "get_sequence_range mantra1 = (of_int 1, of_int 3)"
    by (simp add: get_sequence_range_mantra1)
  have i: "integral_in_range 1 3 1" "integral_in_range 1 3 2" "integral_in_range 1 3 3"
    by (simp_all add: integral_in_range_def)
  have f: "frames_in_range mantra1 three_frames"
    by (simp add: frames_in_range_def three_frames_def pre_render_event_def
          post_frame_event_def get_sequence_range_mantra1 py_int_def i)
  have u: "current_renders idle (path mantra1) = None" by (simp add: idle_def)
  from frame_set_size_bounded [OF g _ u f, of 5] g u f show ?thesis by simp
qed

subsection \<open>The preview media\<close>

text \<open>The sample of 45 files, and a progress bar, evaluated.\<close>

lemma sample_indices_45:
  "sample_indices 45 =
     [0, 1, 2, 3, 4, 5, 6, 7, 8, 9,
      10, 12, 14, 16, 18, 20, 22, 24, 26, 28, 30, 32, 34,
      35, 36, 37, 38, 39, 40, 41, 42, 43, 44]"
  by code_simp
lemma get_progress_bar_third:
  "get_progress_bar (1 / 3) =
     [Filled, Filled, Filled, Blank, Blank, Blank, Blank, Blank, Blank, Blank]"
  by (simp add: get_progress_bar_def py_round_def Let_def numeral_eq_Suc)

lemma py_range_bounds:
  assumes "0 < k" "x \<in> set (py_range a b k)"
  shows "a \<le> x \<and> x < b"
proof -
  let ?m = "(b - a + k - 1) div k"
  from assms(2) obtain i where i: "i < ?m" "x = a + i * k"
    by (auto simp: py_range_def)
  have "Suc i * k \<le> ?m * k" using i(1) by (intro mult_le_mono1) simp
  also have "\<dots> \<le> b - a + k - 1" by simp
  finally have "i * k + k \<le> b - a + k - 1" by simp
  with assms(1) have "i * k < b - a" by linarith
  with i(2) show ?thesis by linarith
qed

lemma py_range_strict: "0 < k \<Longrightarrow> sorted_wrt (<) (py_range a b k)"
proof -
  assume k: "0 < k"
  have "sorted_wrt (\<lambda>i j. a + i * k < a + j * k) [0 ..< (b - a + k - 1) div k]"
    by (rule sorted_wrt_mono_rel [OF _ sorted_wrt_upt]) (use k in simp)
  then show ?thesis by (simp add: py_range_def sorted_wrt_map)
qed

lemma sample_indices_strict:
  assumes "30 < n"
  shows "sorted_wrt (<) (sample_indices n)" and "\<forall>i \<in> set (sample_indices n). i < n"
proof -
  from assms have k: "0 < (n - 20) div 10" by simp
  note b = py_range_bounds [OF k, of _ 10 "n - 10"]
  show "sorted_wrt (<) (sample_indices n)"
    unfolding sample_indices_def
    using py_range_strict [OF k, of 10 "n - 10"] b assms
    by (fastforce simp: sorted_wrt_append)
  show "\<forall>i \<in> set (sample_indices n). i < n"
    unfolding sample_indices_def using b assms by fastforce
qed

lemma sorted_list_of_set_strict:
  fixes xs :: "nat list"
  assumes "sorted_wrt (<) xs"
  shows "sorted_list_of_set (set xs) = xs"
  using assms
  by (intro sorted_distinct_set_unique) (simp_all add: strict_sorted_iff)

lemma map_nth_prefix: "m \<le> length xs \<Longrightarrow> map (\<lambda>i. xs ! i) [0 ..< m] = take m xs"
proof -
  assume m: "m \<le> length xs"
  have "take m (map (\<lambda>i. xs ! i) [0 ..< length xs]) = map (\<lambda>i. xs ! i) [0 ..< m]"
    using m by (simp add: take_map)
  then show ?thesis by (simp add: map_nth)
qed

lemma map_nth_suffix: "map (\<lambda>i. xs ! i) [m ..< length xs] = drop m xs"
proof -
  have "drop m (map (\<lambda>i. xs ! i) [0 ..< length xs]) = map (\<lambda>i. xs ! i) [m ..< length xs]"
    by (simp add: drop_map)
  then show ?thesis by (simp add: map_nth)
qed

lemma sample_frames_shape:
  assumes "30 < length frames"
  shows "sample_frames frames =
     take 10 frames @
     map (\<lambda>i. frames ! i) (py_range 10 (length frames - 10) ((length frames - 20) div 10)) @
     drop (length frames - 10) frames"
proof -
  have "sample_frames frames = map (\<lambda>i. frames ! i) (sample_indices (length frames))"
    using assms sorted_list_of_set_strict [OF sample_indices_strict(1) [OF assms]]
    by (simp add: sample_frames_def)
  also have "\<dots> = map (\<lambda>i. frames ! i) [0 ..< 10] @
     map (\<lambda>i. frames ! i) (py_range 10 (length frames - 10) ((length frames - 20) div 10)) @
     map (\<lambda>i. frames ! i) [length frames - 10 ..< length frames]"
    by (simp add: sample_indices_def)
  finally show ?thesis
    using assms map_nth_prefix [of 10 frames] map_nth_suffix [of frames "length frames - 10"]
    by simp
qed

lemma subseq_map_nth:
  "sorted_wrt (<) is \<Longrightarrow> \<forall>i \<in> set is. i < m \<Longrightarrow> m \<le> length xs \<Longrightarrow>
   subseq (map (\<lambda>i. xs ! i) is) (take m xs)"
proof (induction "is" arbitrary: m rule: rev_induct)
  case Nil
  then show ?case by simp
next
  case (snoc j js)
  from snoc.prems have j: "j < m" and js: "sorted_wrt (<) js" "\<forall>i \<in> set js. i < j"
    by (auto simp: sorted_wrt_append)
  from j snoc.prems(3) have jl: "j < length xs" "j \<le> length xs" by simp_all
  have a: "subseq (map (\<lambda>i. xs ! i) js) (take j xs)"
    by (rule snoc.IH [OF js jl(2)])
  have "drop j (take m xs) = xs ! j # drop (Suc j) (take m xs)"
    using j jl by (simp add: Cons_nth_drop_Suc [symmetric])
  then have b: "subseq [xs ! j] (drop j (take m xs))" by simp
  have "take j (take m xs) @ drop j (take m xs) = take m xs"
    by (rule append_take_drop_id)
  moreover have "take j (take m xs) = take j xs" using j by (simp add: min_def)
  ultimately have s: "take m xs = take j xs @ drop j (take m xs)" by simp
  have "subseq (map (\<lambda>i. xs ! i) js @ [xs ! j]) (take j xs @ drop j (take m xs))"
    by (rule list_emb_append_mono [OF a b])
  with s show ?case by simp
qed

lemma sample_frames_subseq: "subseq (sample_frames frames) frames"
proof (cases "30 < length frames")
  case False
  then show ?thesis by (simp add: sample_frames_def)
next
  case True
  have "sample_frames frames = map (\<lambda>i. frames ! i) (sample_indices (length frames))"
    using True sorted_list_of_set_strict [OF sample_indices_strict(1) [OF True]]
    by (simp add: sample_frames_def)
  with subseq_map_nth [OF sample_indices_strict [OF True] order_refl]
  show ?thesis by simp
qed

lemma sorted_map_nth:
  assumes "sorted xs" "sorted_wrt (<) is" "\<forall>i \<in> set is. i < length xs"
  shows "sorted (map (\<lambda>i. xs ! i) is)"
proof -
  have "sorted_wrt (\<lambda>i j. xs ! i \<le> xs ! j) is"
  proof (rule sorted_wrt_mono_rel [OF _ assms(2)])
    fix i j assume "i \<in> set is" "j \<in> set is" "i < j"
    with assms(1,3) show "xs ! i \<le> xs ! j" by (simp add: sorted_iff_nth_mono_less)
  qed
  then show ?thesis by (simp add: sorted_wrt_map)
qed

lemma sample_frames_sorted:
  assumes "sorted frames"
  shows "sorted (sample_frames frames)"
proof (cases "30 < length frames")
  case False
  with assms show ?thesis by (simp add: sample_frames_def)
next
  case True
  have "sample_frames frames = map (\<lambda>i. frames ! i) (sample_indices (length frames))"
    using True sorted_list_of_set_strict [OF sample_indices_strict(1) [OF True]]
    by (simp add: sample_frames_def)
  with sorted_map_nth [OF assms sample_indices_strict [OF True]] show ?thesis by simp
qed


lemma media_of_reports:
  "filter is_media (edit_or_send e mid m cs) = filter is_media cs"
  "filter is_media (edit_if_tracked e mid m cs) = filter is_media cs"
  "filter is_media (snd (send_telegram_message e m cs)) = filter is_media cs"
  by (simp_all add: edit_or_send_def edit_if_tracked_def send_telegram_message_def
        split: option.splits)

lemma send_preview_cases:
  "send_preview n e = [] \<or> send_preview n e = snd (send_telegram_animation n e)"
  by (auto simp: send_preview_def split: option.splits)

lemma media_of_send_telegram_animation:
  "filter is_media (snd (send_telegram_animation n e)) = snd (send_telegram_animation n e)"
  by (simp add: send_telegram_animation_def Let_def)

lemma media_of_send_preview: "filter is_media (send_preview n e) = send_preview n e"
  using send_preview_cases [of n e] media_of_send_telegram_animation [of n e] by auto

lemma media_of_on_post_render:
  "filter is_media (calls (fst (on_post_render w n e))) =
     filter is_media (calls w) @ (if all_frames_completed w n then send_preview n e else [])"
proof (cases "current_renders w (path n)")
  case None
  then show ?thesis by (simp add: on_post_render_def all_frames_completed_def)
next
  case (Some st)
  then show ?thesis
    by (auto simp: on_post_render_def all_frames_completed_def Let_def media_of_reports
          media_of_send_preview get_render_stats_after_update split: option.splits)
qed

lemma media_of_on_post_frame:
  "filter is_media (calls (fst (on_post_frame w n f e))) = filter is_media (calls w)"
  by (auto simp: on_post_frame_def Let_def split: option.splits prod.splits sum.splits)

lemma media_of_on_pre_render:
  "filter is_media (calls (on_pre_render w n e)) = filter is_media (calls w)"
  by (simp add: on_pre_render_def Let_def send_telegram_message_def split: option.splits)

lemma media_of_on_render_event:
  "filter is_media (calls (fst (on_render_event w n ev f e))) =
     filter is_media (calls w) @
     (if notifications_enabled w \<and> ev = PostRender \<and> all_frames_completed w n
      then send_preview n e else [])"
proof (cases "notifications_enabled w")
  case False
  then show ?thesis by (simp add: on_render_event_def)
next
  case True
  show ?thesis
  proof (cases ev)
    case PreRender
    with True show ?thesis
      by (simp add: on_render_event_def on_render_event_body_def media_of_on_pre_render)
  next
    case PostFrame
    with True media_of_on_post_frame [of w n f e] show ?thesis
      by (cases "on_post_frame w n f e")
        (auto simp: on_render_event_def on_render_event_body_def Let_def
           send_telegram_message_def split: option.splits)
  next
    case PostRender
    with True media_of_on_post_render [of w n e] show ?thesis
      by (simp add: on_render_event_post_render)
  qed (simp_all add: on_render_event_def on_render_event_body_def)
qed

lemma sort_single: "length xs = 1 \<Longrightarrow> sort xs = [hd xs]"
  by (cases xs) auto

text \<open>
  Claim C8. Media requests are issued only by a \<open>PostRender\<close> event handled for a
  node whose completed frames equal \<open>total_frames\<close>, and they are the requests of the
  preview attempt. When exactly one file matches, the request is a single photo of that
  file (nothing when its conversion fails), never an animation. When more than 30
  files match, the animation is built from the convertible frames of the sample of the
  sorted list; the sample starts with the first 10 files, ends with the last 10, is a
  subsequence of the sorted list and is sorted.
\<close>

theorem preview_media:
  "filter is_media (calls (fst (on_render_event w n ev f e))) =
     filter is_media (calls w) @
     (if notifications_enabled w \<and> ev = PostRender \<and> all_frames_completed w n
      then send_preview n e else []) \<and>
   (send_preview n e = [] \<or> send_preview n e = snd (send_telegram_animation n e)) \<and>
   (length (glob_frames e) = 1 \<longrightarrow>
      snd (send_telegram_animation n e) =
        (if convertible e (hd (glob_frames e))
         then [SendPhoto (get_node_name n) (hd (glob_frames e))] else [])) \<and>
   (30 < length (glob_frames e) \<longrightarrow>
      (let frames = sort (glob_frames e); sampled = sample_frames frames
       in snd (send_telegram_animation n e) =
            (if filter (convertible e) sampled \<noteq> []
             then [SendAnimation (get_node_name n) (filter (convertible e) sampled)]
             else []) \<and>
          take 10 sampled = take 10 frames \<and>
          drop (length sampled - 10) sampled = drop (length frames - 10) frames \<and>
          subseq sampled frames \<and> sorted sampled))"
proof -
  have c: "length (glob_frames e) = 1 \<longrightarrow>
      snd (send_telegram_animation n e) =
        (if convertible e (hd (glob_frames e))
         then [SendPhoto (get_node_name n) (hd (glob_frames e))] else [])"
    by (auto simp: send_telegram_animation_def sort_single)
  have d: "30 < length (glob_frames e) \<longrightarrow>
      (let frames = sort (glob_frames e); sampled = sample_frames frames
       in snd (send_telegram_animation n e) =
            (if filter (convertible e) sampled \<noteq> []
             then [SendAnimation (get_node_name n) (filter (convertible e) sampled)]
             else []) \<and>
          take 10 sampled = take 10 frames \<and>
          drop (length sampled - 10) sampled = drop (length frames - 10) frames \<and>
          subseq sampled frames \<and> sorted sampled)"
  proof
    assume l: "30 < length (glob_frames e)"
    define frames where "frames = sort (glob_frames e)"
    have lf: "30 < length frames" using l by (simp add: frames_def)
    have sf: "sorted frames" by (simp add: frames_def)
    note sh = sample_frames_shape [OF lf]
    have ne: "frames \<noteq> []" "length frames \<noteq> 1" using lf by auto
    have 1: "snd (send_telegram_animation n e) =
            (if filter (convertible e) (sample_frames frames) \<noteq> []
             then [SendAnimation (get_node_name n) (filter (convertible e) (sample_frames frames))]
             else [])"
      using ne by (simp add: send_telegram_animation_def frames_def [symmetric] Let_def)
    have 2: "take 10 (sample_frames frames) = take 10 frames"
      using lf by (simp add: sh)
    have 3: "drop (length (sample_frames frames) - 10) (sample_frames frames) =
        drop (length frames - 10) frames"
      using lf by (simp add: sh)
    show "let frames = sort (glob_frames e); sampled = sample_frames frames
       in snd (send_telegram_animation n e) =
            (if filter (convertible e) sampled \<noteq> []
             then [SendAnimation (get_node_name n) (filter (convertible e) sampled)]
             else []) \<and>
          take 10 sampled = take 10 frames \<and>
          drop (length sampled - 10) sampled = drop (length frames - 10) frames \<and>
          subseq sampled frames \<and> sorted sampled"
      unfolding Let_def frames_def [symmetric]
      using 1 2 3 sample_frames_subseq [of frames] sample_frames_sorted [OF sf] by simp
  qed
  from media_of_on_render_event [of w n ev f e] send_preview_cases [of n e] c d
  show ?thesis by blast
qed


lemma many_files_length: "length (glob_frames many_files_env) = 31"
  by (simp add: many_files_env_def)

lemma single_file_preview:
  "send_preview mantra1 single_file_env = [SendPhoto ''mantra1'' ''/tmp/render.0001.exr'']"
  "snd (send_telegram_animation mantra1 single_file_env) =
     [SendPhoto ''mantra1'' ''/tmp/render.0001.exr'']"
  "length (glob_frames single_file_env) = 1"
  by (simp_all add: send_preview_def send_telegram_animation_def single_file_env_def
        mantra1_def get_node_name_def)

lemma all_frames_completed_example:
  "all_frames_completed (tracking mantra1 (started\<lparr>completed_frames := {|1, 2, 3|}\<rparr>)) mantra1"
  "notifications_enabled (tracking mantra1 (started\<lparr>completed_frames := {|1, 2, 3|}\<rparr>))"
  "calls (tracking mantra1 (started\<lparr>completed_frames := {|1, 2, 3|}\<rparr>)) = []"
  by (simp_all add: all_frames_completed_def tracking_def started_eq fcard_finsert_if
        fcard_fempty)

theorem preview_media_witness:
  "notifications_enabled (tracking mantra1 (started\<lparr>completed_frames := {|1, 2, 3|}\<rparr>)) \<and>
   all_frames_completed (tracking mantra1 (started\<lparr>completed_frames := {|1, 2, 3|}\<rparr>)) mantra1 \<and>
   filter is_media (calls (fst (on_render_event
       (tracking mantra1 (started\<lparr>completed_frames := {|1, 2, 3|}\<rparr>)) mantra1 PostRender 0
       single_file_env))) = [SendPhoto ''mantra1'' ''/tmp/render.0001.exr''] \<and>
   length (glob_frames single_file_env) = 1 \<and>
   snd (send_telegram_animation mantra1 single_file_env) =
     [SendPhoto ''mantra1'' ''/tmp/render.0001.exr''] \<and>
   30 < length (glob_frames many_files_env) \<and>
   take 10 (sample_frames (sort (glob_frames many_files_env))) =
     take 10 (sort (glob_frames many_files_env)) \<and>
   drop (length (sample_frames (sort (glob_frames many_files_env))) - 10)
       (sample_frames (sort (glob_frames many_files_env))) =
     drop 21 (sort (glob_frames many_files_env)) \<and>
   sorted (sample_frames (sort (glob_frames many_files_env)))"
  using preview_media [of "tracking mantra1 (started\<lparr>completed_frames := {|1, 2, 3|}\<rparr>)"
      mantra1 PostRender 0 single_file_env]
    preview_media [of "tracking mantra1 (started\<lparr>completed_frames := {|1, 2, 3|}\<rparr>)"
      mantra1 PostRender 0 many_files_env]
  by (simp add: many_files_length single_file_preview all_frames_completed_example Let_def)

subsection \<open>Periodic progress reports\<close>

lemma on_post_frame_times:
  assumes "current_renders w (path n) = Some st"
  shows "\<exists>st'. current_renders (fst (on_post_frame w n f e)) (path n) = Some st' \<and>
           update_interval st' = update_interval st \<and>
           last_update_time st' =
             (if update_interval st \<le> now e - last_update_time st then now e
              else last_update_time st)"
  using assms
  by (auto simp: on_post_frame_def Let_def should_update_progress_def
           split: option.splits sum.splits if_splits)

lemma on_render_event_post_frame_times:
  assumes "current_renders (fst (on_render_event w n PostFrame f e)) (path n) = Some st'"
  shows "\<exists>st. current_renders w (path n) = Some st \<and>
           update_interval st' = update_interval st \<and>
           (0 \<le> update_interval st \<longrightarrow> last_update_time st \<le> last_update_time st')"
proof (cases "notifications_enabled w")
  case False
  with assms show ?thesis by (simp add: on_render_event_def)
next
  case True
  show ?thesis
  proof (cases "current_renders w (path n)")
    case None
    with assms True show ?thesis
      by (simp add: on_render_event_def on_render_event_body_def on_post_frame_untracked)
  next
    case (Some st)
    from on_post_frame_times [OF Some, of f e] obtain s1 where
      s1: "current_renders (fst (on_post_frame w n f e)) (path n) = Some s1"
        "update_interval s1 = update_interval st"
        "last_update_time s1 =
             (if update_interval st \<le> now e - last_update_time st then now e
              else last_update_time st)" by blast
    have "current_renders (fst (on_render_event w n PostFrame f e)) (path n) = Some s1"
      using assms True s1(1)
      by (cases "on_post_frame w n f e")
        (auto simp: on_render_event_def on_render_event_body_def Let_def
           split: option.splits)
    with assms have "st' = s1" by simp
    with s1 Some show ?thesis by auto
  qed
qed

lemma run_post_frames_times:
  assumes "current_renders (run w n (post_frames fes)) (path n) = Some st'"
  shows "\<exists>st. current_renders w (path n) = Some st \<and>
           update_interval st' = update_interval st \<and>
           (0 \<le> update_interval st \<longrightarrow> last_update_time st \<le> last_update_time st')"
  using assms
proof (induction fes arbitrary: w)
  case Nil
  then show ?case by (simp add: post_frames_def)
next
  case (Cons fe fes)
  let ?w1 = "fst (on_render_event w n PostFrame (fst fe) (snd fe))"
  from Cons.prems have "current_renders (run ?w1 n (post_frames fes)) (path n) = Some st'"
    by (simp add: run_post_frames_cons)
  from Cons.IH [OF this] obtain s1 where s1: "current_renders ?w1 (path n) = Some s1"
    "update_interval st' = update_interval s1"
    "0 \<le> update_interval s1 \<longrightarrow> last_update_time s1 \<le> last_update_time st'" by blast
  from on_render_event_post_frame_times [OF s1(1)] obtain st where
    st: "current_renders w (path n) = Some st"
      "update_interval s1 = update_interval st"
      "0 \<le> update_interval st \<longrightarrow> last_update_time st \<le> last_update_time s1" by blast
  from s1 st show ?case by auto
qed

lemma progress_edited_due:
  assumes "progress_edited w (fst (on_render_event w n PostFrame f e))"
  shows "\<exists>st st'. current_renders w (path n) = Some st \<and>
           update_interval st \<le> now e - last_update_time st \<and>
           current_renders (fst (on_render_event w n PostFrame f e)) (path n) = Some st' \<and>
           update_interval st' = update_interval st \<and> last_update_time st' = now e"
proof -
  have en: "notifications_enabled w"
  proof (rule ccontr)
    assume "\<not> notifications_enabled w"
    then have "on_render_event w n PostFrame f e = (w, None)"
      by (simp add: on_render_event_def)
    with assms show False by (simp add: progress_edited_def)
  qed
  obtain st where st: "current_renders w (path n) = Some st"
  proof (cases "current_renders w (path n)")
    case None
    with en have "on_render_event w n PostFrame f e = (w, None)"
      by (simp add: on_render_event_def on_render_event_body_def on_post_frame_untracked)
    with assms show ?thesis by (simp add: progress_edited_def)
  qed auto
  obtain w' x where b: "on_post_frame w n f e = (w', x)" by (cases "on_post_frame w n f e")
  have cw: "calls w' = calls (fst (on_post_frame w n f e))" using b by simp
  have nx: "x = None"
  proof (cases x)
    case (Some y)
    have "total_frames st = 0"
    proof (rule ccontr)
      assume "total_frames st \<noteq> 0"
      from on_post_frame_no_exception [OF st this, of f e] b Some show False by simp
    qed
    then have "calls w' = calls w"
      using on_post_frame_calls [OF st, of f e] cw by (simp add: Let_def)
    with en b Some assms show ?thesis
      by (simp add: on_render_event_def on_render_event_body_def Let_def
            send_telegram_message_def progress_edited_def)
  qed
  with en b have r: "fst (on_render_event w n PostFrame f e) = fst (on_post_frame w n f e)"
    by (simp add: on_render_event_def on_render_event_body_def)
  have due: "update_interval st \<le> now e - last_update_time st"
  proof (rule ccontr)
    assume "\<not> update_interval st \<le> now e - last_update_time st"
    then have "calls (fst (on_post_frame w n f e)) = calls w"
      using on_post_frame_calls [OF st, of f e] by (simp add: Let_def)
    with assms r show False by (simp add: progress_edited_def)
  qed
  from on_post_frame_times [OF st, of f e] due r st show ?thesis by auto
qed

lemma progress_edits_spaced:
  assumes i: "current_renders w (path n) = Some s0" "0 \<le> update_interval s0"
    and a: "progress_edited w (fst (on_render_event w n PostFrame f1 e1))"
    and b: "progress_edited
        (run (fst (on_render_event w n PostFrame f1 e1)) n (post_frames fes))
        (fst (on_render_event
          (run (fst (on_render_event w n PostFrame f1 e1)) n (post_frames fes)) n
          PostFrame f2 e2))"
  shows "update_interval s0 \<le> now e2 - now e1"
proof -
  let ?w1 = "fst (on_render_event w n PostFrame f1 e1)"
  let ?w2 = "run ?w1 n (post_frames fes)"
  from progress_edited_due [OF a] i(1) obtain s1 where
    s1: "current_renders ?w1 (path n) = Some s1" "update_interval s1 = update_interval s0"
      "last_update_time s1 = now e1" by auto
  from progress_edited_due [OF b] obtain s2 where
    s2: "current_renders ?w2 (path n) = Some s2"
      "update_interval s2 \<le> now e2 - last_update_time s2" by blast
  from run_post_frames_times [OF s2(1)] s1(1) have
    "update_interval s2 = update_interval s1"
    "0 \<le> update_interval s1 \<longrightarrow> last_update_time s1 \<le> last_update_time s2" by auto
  with s1 s2 i(2) show ?thesis by simp
qed

text \<open>
  Claim C7. \<open>should_update_progress\<close> returns \<open>True\<close> exactly when at least
  \<open>update_interval\<close> seconds have passed since \<open>last_update_time\<close>; in that case
  it sets \<open>last_update_time\<close> to the current time and changes nothing else, and
  when it returns \<open>False\<close> the state is unchanged. Every freshly initialized state
  has an update interval of 2 seconds. Hence two calls that both return \<open>True\<close>, the
  second on the state the first left, are at least one update interval apart; and
  when a \<open>PostFrame\<close> event edits the tracked message with a progress report and,
  after any further \<open>PostFrame\<close> events, another one does, the two are at least one
  update interval apart (for an interval that is not negative).
\<close>

theorem should_update_progress_periodic:
  "(fst (should_update_progress st t) \<longleftrightarrow> t - last_update_time st \<ge> update_interval st) \<and>
   (fst (should_update_progress st t) \<longrightarrow>
      snd (should_update_progress st t) = st\<lparr>last_update_time := t\<rparr>) \<and>
   (\<not> fst (should_update_progress st t) \<longrightarrow> snd (should_update_progress st t) = st) \<and>
   update_interval (initialize_render_state n t0) = 2 \<and>
   (fst (should_update_progress st t) \<and>
    fst (should_update_progress (snd (should_update_progress st t)) t') \<longrightarrow>
      t' - t \<ge> update_interval st) \<and>
   (current_renders w (path n) = Some s0 \<and> 0 \<le> update_interval s0 \<and>
    progress_edited w (fst (on_render_event w n PostFrame f1 e1)) \<and>
    progress_edited
        (run (fst (on_render_event w n PostFrame f1 e1)) n (post_frames fes))
        (fst (on_render_event
          (run (fst (on_render_event w n PostFrame f1 e1)) n (post_frames fes)) n
          PostFrame f2 e2)) \<longrightarrow>
      now e2 - now e1 \<ge> update_interval s0)"
proof -
  have a: "(fst (should_update_progress st t) \<longleftrightarrow> t - last_update_time st \<ge> update_interval st) \<and>
   (fst (should_update_progress st t) \<longrightarrow>
      snd (should_update_progress st t) = st\<lparr>last_update_time := t\<rparr>) \<and>
   (\<not> fst (should_update_progress st t) \<longrightarrow> snd (should_update_progress st t) = st) \<and>
   update_interval (initialize_render_state n t0) = 2 \<and>
   (fst (should_update_progress st t) \<and>
    fst (should_update_progress (snd (should_update_progress st t)) t') \<longrightarrow>
      t' - t \<ge> update_interval st)"
    by (simp add: should_update_progress_def initialize_render_state_def Let_def
          split: prod.splits)
  have b: "current_renders w (path n) = Some s0 \<and> 0 \<le> update_interval s0 \<and>
    progress_edited w (fst (on_render_event w n PostFrame f1 e1)) \<and>
    progress_edited
        (run (fst (on_render_event w n PostFrame f1 e1)) n (post_frames fes))
        (fst (on_render_event
          (run (fst (on_render_event w n PostFrame f1 e1)) n (post_frames fes)) n
          PostFrame f2 e2)) \<longrightarrow>
      now e2 - now e1 \<ge> update_interval s0"
    using progress_edits_spaced [of w n s0 f1 e1 fes f2 e2] by blast
  from a b show ?thesis by blast
qed


lemma progress_edited_examples:
  "progress_edited (tracking mantra1 started)
     (fst (on_render_event (tracking mantra1 started) mantra1 PostFrame 1 (quiet_env 4)))"
  "progress_edited
     (run (fst (on_render_event (tracking mantra1 started) mantra1 PostFrame 1 (quiet_env 4)))
        mantra1 (post_frames [(2, quiet_env 5)]))
     (fst (on_render_event
        (run (fst (on_render_event (tracking mantra1 started) mantra1 PostFrame 1 (quiet_env 4)))
           mantra1 (post_frames [(2, quiet_env 5)]))
        mantra1 PostFrame 3 (quiet_env 6)))"
  by (simp_all add: progress_edited_def on_render_event_def on_render_event_body_def
        on_post_frame_def tracking_def quiet_env_def started_eq path_mantra1
        should_update_progress_def progress_figures_def progress_message_def Let_def
        post_frames_def post_frame_event_def)

theorem should_update_progress_periodic_witness:
  "fst (should_update_progress (initialize_render_state mantra1 0) 3) \<and>
   snd (should_update_progress (initialize_render_state mantra1 0) 3) =
     (initialize_render_state mantra1 0)\<lparr>last_update_time := 3\<rparr> \<and>
   \<not> fst (should_update_progress (initialize_render_state mantra1 0) 1) \<and>
   snd (should_update_progress (initialize_render_state mantra1 0) 1) =
     initialize_render_state mantra1 0 \<and>
   fst (should_update_progress
          (snd (should_update_progress (initialize_render_state mantra1 0) 3)) 5) \<and>
   (5::real) - 3 \<ge> update_interval (initialize_render_state mantra1 0) \<and>
   current_renders (tracking mantra1 started) (path mantra1) = Some started \<and>
   0 \<le> update_interval started \<and>
   progress_edited (tracking mantra1 started)
     (fst (on_render_event (tracking mantra1 started) mantra1 PostFrame 1 (quiet_env 4))) \<and>
   progress_edited
     (run (fst (on_render_event (tracking mantra1 started) mantra1 PostFrame 1 (quiet_env 4)))
        mantra1 (post_frames [(2, quiet_env 5)]))
     (fst (on_render_event
        (run (fst (on_render_event (tracking mantra1 started) mantra1 PostFrame 1 (quiet_env 4)))
           mantra1 (post_frames [(2, quiet_env 5)]))
        mantra1 PostFrame 3 (quiet_env 6))) \<and>
   now (quiet_env 6) - now (quiet_env 4) \<ge> update_interval started"
proof -
  have t: "current_renders (tracking mantra1 started) (path mantra1) = Some started"
    "0 \<le> update_interval started"
    by (simp_all add: tracking_def started_eq)
  from should_update_progress_periodic [of "initialize_render_state mantra1 0" 3 mantra1 0 5
      "tracking mantra1 started" started 1 "quiet_env 4" "[(2, quiet_env 5)]" 3 "quiet_env 6"]
    should_update_progress_periodic [of "initialize_render_state mantra1 0" 1 mantra1 0 5
      "tracking mantra1 started" started 1 "quiet_env 4" "[(2, quiet_env 5)]" 3 "quiet_env 6"]
    t progress_edited_examples
  show ?thesis
    by (simp add: initialize_render_state_mantra1 should_update_progress_def)
qed

end
